theory Spec2Isabelle
  imports Complex_Main "HOL-Library.Multiset"
begin

section \<open>Data model\<close>

text \<open>
  The scripts work on plain JSON values. The embedding types them by the Zod schemas of
  \<^verbatim>\<open>scripts/schemas.mjs\<close>: a \<^verbatim>\<open>z.number()\<close> is a \<open>real\<close> (the IEEE doubles of
  JavaScript are idealised as real numbers, so no rounding error, NaN or infinity is
  modelled), an optional key is an \<open>option\<close>, an array is a list, a string is a
  \<open>string\<close> of 8-bit characters, and a value of a \<^verbatim>\<open>z.enum\<close> is a constructor named
  after it (\<open>et_private\<close> is \<^verbatim>\<open>'private'\<close>, \<open>em_tow\<close> is \<^verbatim>\<open>'tow'\<close>).
\<close>

datatype EnforcementType =
  et_government | et_private | et_council | et_hospital | et_university | et_airport
  | et_shopping_centre | et_residential | et_other

datatype EnforcementMethod =
  em_camera_anpr | em_physical_warden | em_ticket_machine | em_pay_and_display
  | em_barrier | em_clamp | em_tow | em_mixed | em_unknown

record OperatingHours =
  dayOfWeek :: real
  startTime :: string
  endTime :: string
  enforced :: bool

record LatLng =
  lat :: real
  lng :: real

text \<open>
  \<^verbatim>\<open>ParkingZoneSubmission = ParkingZone.omit({ id, verified, version })\<close>: the submission
  holds every key of a zone but the three, and a zone is a submission extended by them
  (the key \<^verbatim>\<open>id\<close> is the field \<open>zone_id\<close>, since \<open>id\<close> is the identity function of HOL).
\<close>

record ParkingZoneSubmission =
  name :: string
  description :: "string option"
  center :: LatLng
  radius :: real
  polygon :: "LatLng list option"
  enforcementType :: EnforcementType
  enforcementMethod :: EnforcementMethod
  enforcementCompany :: "string option"
  legislationCode :: "string option"
  freeMinutes :: real
  maxStayMinutes :: "real option"
  chargePerHour :: "real option"
  currency :: string
  operatingHours :: "OperatingHours list option"
  noReturnMinutes :: "real option"
  reparkingTips :: "string option"
  country :: string
  region :: string
  city :: "string option"

record ParkingZone = ParkingZoneSubmission +
  zone_id :: string
  verified :: bool
  version :: int

text \<open>
  A JavaScript object whose keys are geohashes: the list of its entries, in the order of
  \<^verbatim>\<open>Object.entries\<close>. Keys are unique in an object.
\<close>

type_synonym zones_obj = "(string \<times> ParkingZone list) list"

text \<open>
  \<^verbatim>\<open>CdnZoneIndex\<close>, one zone file. Its keys \<^verbatim>\<open>country\<close> and \<^verbatim>\<open>region\<close> are the
  fields \<open>file_country\<close> and \<open>file_region\<close> (a zone has keys of the same names).
\<close>

record CdnZoneIndex =
  file_country :: string
  file_region :: string
  lastUpdated :: string
  zoneCount :: nat
  zones :: zones_obj

record BBox =
  north :: real
  south :: real
  east :: real
  west :: real

record ManifestRegion =
  region_country :: string
  region_region :: string
  bbox :: BBox
  region_zoneCount :: nat

record Manifest =
  regions :: "ManifestRegion list"
  manifest_lastUpdated :: string

section \<open>Geospatial math\<close>

text \<open>\<^verbatim>\<open>distanceMeters(a, b)\<close>: the haversine distance in meters.\<close>

definition distanceMeters :: "LatLng \<Rightarrow> LatLng \<Rightarrow> real" where
  "distanceMeters a b =
     (let R = 6371000;
          dLat = ((lat b - lat a) * pi) / 180;
          dLng = ((lng b - lng a) * pi) / 180;
          sinLat = sin (dLat / 2);
          sinLng = sin (dLng / 2);
          h = sinLat * sinLat +
              cos ((lat a * pi) / 180) * cos ((lat b * pi) / 180) * sinLng * sinLng
      in 2 * R * arcsin (sqrt h))"

text \<open>\<^verbatim>\<open>Math.round\<close>: the nearest integer, a tie going upward.\<close>

definition mathRound :: "real \<Rightarrow> real" where
  "mathRound x = of_int \<lfloor>x + 1 / 2\<rfloor>"

text \<open>
  \<^verbatim>\<open>computeBbox(zones)\<close> of \<^verbatim>\<open>manifest-utils.mjs\<close>. \<open>bboxStep\<close> is the body of the
  inner loop, the four assignments in the order of the source.
\<close>

definition bboxStep :: "BBox \<Rightarrow> ParkingZone \<Rightarrow> BBox" where
  "bboxStep b zone =
     (let la = lat (center zone);
          lo = lng (center zone);
          b1 = (if la > north b then b\<lparr>north := la\<rparr> else b);
          b2 = (if la < south b1 then b1\<lparr>south := la\<rparr> else b1);
          b3 = (if lo > east b2 then b2\<lparr>east := lo\<rparr> else b2);
          b4 = (if lo < west b3 then b3\<lparr>west := lo\<rparr> else b3)
      in b4)"

definition bboxInit :: BBox where
  "bboxInit = \<lparr>north = -90, south = 90, east = -180, west = 180\<rparr>"

definition bboxScan :: "zones_obj \<Rightarrow> BBox" where
  "bboxScan zs = foldl (\<lambda>b bucket. foldl bboxStep b bucket) bboxInit (map snd zs)"

definition computeBbox :: "zones_obj \<Rightarrow> BBox" where
  "computeBbox zs =
     (let b = bboxScan zs;
          pad = 5 / 100
      in \<lparr>north = mathRound ((north b + pad) * 10) / 10,
          south = mathRound ((south b - pad) * 10) / 10,
          east = mathRound ((east b + pad) * 10) / 10,
          west = mathRound ((west b - pad) * 10) / 10\<rparr>)"

text \<open>
  The second copy of the function, the one inside the standalone manifest script
  (the last file of \<^verbatim>\<open>unnamed/part_002\<close>): the same loop and the same padding.
\<close>

definition computeBbox_script :: "zones_obj \<Rightarrow> BBox" where
  "computeBbox_script zs =
     (let b = foldl (\<lambda>b bucket. foldl bboxStep b bucket)
                \<lparr>north = -90, south = 90, east = -180, west = 180\<rparr> (map snd zs);
          pad = 5 / 100
      in \<lparr>north = mathRound ((north b + pad) * 10) / 10,
          south = mathRound ((south b - pad) * 10) / 10,
          east = mathRound ((east b + pad) * 10) / 10,
          west = mathRound ((west b - pad) * 10) / 10\<rparr>)"

section \<open>Manifest builder\<close>

text \<open>
  \<^verbatim>\<open>buildManifest(zoneFiles)\<close>: the loop pushes one entry per file; the time stamp
  \<^verbatim>\<open>new Date().toISOString()\<close> is the argument \<open>now\<close>.
\<close>

definition manifestEntry :: "CdnZoneIndex \<Rightarrow> ManifestRegion" where
  "manifestEntry d =
     \<lparr>region_country = file_country d,
      region_region = file_region d,
      bbox = computeBbox (zones d),
      region_zoneCount = zoneCount d\<rparr>"

definition buildManifest :: "string \<Rightarrow> CdnZoneIndex list \<Rightarrow> Manifest" where
  "buildManifest now zoneFiles =
     \<lparr>regions = foldl (\<lambda>rs d. rs @ [manifestEntry d]) [] zoneFiles,
      manifest_lastUpdated = now\<rparr>"

section \<open>Duplicate detector\<close>

text \<open>
  Names are strings of 8-bit characters: \<^verbatim>\<open>toLowerCase\<close> maps the letters A to Z, and
  the class \<^verbatim>\<open>\s\<close> is the six ASCII white-space characters (tab, line feed, vertical
  tab, form feed, carriage return, space).
\<close>

definition toLowerCase_char :: "char \<Rightarrow> char" where
  "toLowerCase_char c =
     (let n = (of_char c :: nat) in if 65 \<le> n \<and> n \<le> 90 then char_of (n + 32) else c)"

definition toLowerCase :: "string \<Rightarrow> string" where
  "toLowerCase s = map toLowerCase_char s"

definition isWhitespace :: "char \<Rightarrow> bool" where
  "isWhitespace c = ((of_char c :: nat) \<in> set [9, 10, 11, 12, 13, 32])"

text \<open>
  \<^verbatim>\<open>s.split(/\s+/)\<close>: the pieces between the maximal runs of white space, the empty
  piece before a leading run and after a trailing one included. \<open>inSep\<close> tells that the
  scan is inside a run, \<open>cur\<close> is the piece read so far.
\<close>

fun splitWhitespace :: "bool \<Rightarrow> string \<Rightarrow> string \<Rightarrow> string list" where
  "splitWhitespace inSep cur [] = [cur]"
| "splitWhitespace inSep cur (c # cs) =
     (if isWhitespace c
      then (if inSep then splitWhitespace True cur cs
            else cur # splitWhitespace True [] cs)
      else splitWhitespace False (cur @ [c]) cs)"

text \<open>
  \<^verbatim>\<open>new Set(array)\<close>: the elements in the order of their first occurrence, each once;
  its \<^verbatim>\<open>size\<close> is the length of the list.
\<close>

definition setAdd :: "'a list \<Rightarrow> 'a \<Rightarrow> 'a list" where
  "setAdd s x = (if x \<in> set s then s else s @ [x])"

definition newSet :: "'a list \<Rightarrow> 'a list" where
  "newSet xs = foldl setAdd [] xs"

definition nameTokens :: "string \<Rightarrow> string list" where
  "nameTokens a = newSet (filter (\<lambda>t. t \<noteq> []) (splitWhitespace False [] (toLowerCase a)))"

definition nameSimilarity :: "string \<Rightarrow> string \<Rightarrow> real" where
  "nameSimilarity a b =
     (let tokensA = nameTokens a;
          tokensB = nameTokens b
      in if length tokensA = 0 \<and> length tokensB = 0 then 1
         else if length tokensA = 0 \<or> length tokensB = 0 then 0
         else
           (let intersection = foldl (\<lambda>n t. if t \<in> set tokensB then n + 1 else n) (0::int) tokensA;
                union = int (length tokensA) + int (length tokensB) - intersection
            in if union = 0 then 0 else of_int intersection / of_int union))"

text \<open>
  \<^verbatim>\<open>findDuplicate(candidate, existingZones)\<close>. \<open>matchesZone\<close> is the body of the inner
  loop: it holds when one of the two \<^verbatim>\<open>return zone\<close> statements is reached.
\<close>

definition matchesZone :: "ParkingZoneSubmission \<Rightarrow> ParkingZone \<Rightarrow> bool" where
  "matchesZone candidate zone =
     (let dist = distanceMeters (center candidate) (center zone)
      in if dist \<le> 50 \<and> nameSimilarity (name candidate) (name zone) \<ge> 6 / 10 then True
         else if dist \<le> 20
         then (let maxRadius = max (radius candidate) (radius zone);
                   radiusDiff = \<bar>radius candidate - radius zone\<bar>
               in maxRadius > 0 \<and> radiusDiff / maxRadius \<le> 3 / 10)
         else False)"

fun findDuplicateIn :: "ParkingZoneSubmission \<Rightarrow> ParkingZone list \<Rightarrow> ParkingZone option" where
  "findDuplicateIn candidate [] = None"
| "findDuplicateIn candidate (zone # bucket) =
     (if matchesZone candidate zone then Some zone else findDuplicateIn candidate bucket)"

fun findDuplicate :: "ParkingZoneSubmission \<Rightarrow> zones_obj \<Rightarrow> ParkingZone option" where
  "findDuplicate candidate [] = None"
| "findDuplicate candidate ((geohash, bucket) # existingZones) =
     (case findDuplicateIn candidate bucket of
        Some zone \<Rightarrow> Some zone
      | None \<Rightarrow> findDuplicate candidate existingZones)"

section \<open>JavaScript objects as entry lists\<close>

text \<open>
  The order of \<^verbatim>\<open>Object.entries\<close>: the keys that are array indices (canonical decimal
  numerals below \<open>2^32 - 1\<close>) in ascending order, then the other keys in the order of
  their creation. A six-digit geohash such as \<^verbatim>\<open>123456\<close> is an array index. (The keys
  are geohashes, words of the base-32 alphabet of the encoder: none is the name of a
  property that an object inherits, so a key is read as an own key or as absent.)
\<close>

definition isDigit :: "char \<Rightarrow> bool" where
  "isDigit c = (48 \<le> (of_char c :: nat) \<and> (of_char c :: nat) \<le> 57)"

definition digitsValue :: "string \<Rightarrow> nat" where
  "digitsValue k = foldl (\<lambda>n c. 10 * n + ((of_char c :: nat) - 48)) 0 k"

definition arrayIndex :: "string \<Rightarrow> nat option" where
  "arrayIndex k =
     (if k \<noteq> [] \<and> list_all isDigit k \<and> (k = ''0'' \<or> hd k \<noteq> CHR ''0'')
         \<and> digitsValue k < 2 ^ 32 - 1
      then Some (digitsValue k) else None)"

fun insertIndexKey :: "nat \<Rightarrow> string \<Rightarrow> 'v \<Rightarrow> (string \<times> 'v) list \<Rightarrow> (string \<times> 'v) list" where
  "insertIndexKey n k v [] = [(k, v)]"
| "insertIndexKey n k v ((k', v') # kvs) =
     (case arrayIndex k' of
        Some m \<Rightarrow> if m < n then (k', v') # insertIndexKey n k v kvs
                  else (k, v) # (k', v') # kvs
      | None \<Rightarrow> (k, v) # (k', v') # kvs)"

definition objHas :: "(string \<times> 'v) list \<Rightarrow> string \<Rightarrow> bool" where
  "objHas obj k = (map_of obj k \<noteq> None)"

text \<open>\<^verbatim>\<open>obj[k] = v\<close>: in place when the key exists, a new entry otherwise.\<close>

definition objSet :: "(string \<times> 'v) list \<Rightarrow> string \<Rightarrow> 'v \<Rightarrow> (string \<times> 'v) list" where
  "objSet obj k v =
     (if objHas obj k then map (\<lambda>(k', v'). if k' = k then (k', v) else (k', v')) obj
      else (case arrayIndex k of
              Some n \<Rightarrow> insertIndexKey n k v obj
            | None \<Rightarrow> obj @ [(k, v)]))"

text \<open>\<^verbatim>\<open>delete obj[k]\<close>\<close>

definition objDelete :: "(string \<times> 'v) list \<Rightarrow> string \<Rightarrow> (string \<times> 'v) list" where
  "objDelete obj k = filter (\<lambda>(k', v'). k' \<noteq> k) obj"

text \<open>
  \<^verbatim>\<open>if (!zones[k]) zones[k] = []; zones[k].push(z)\<close>, the two statements that both
  functions use to add a zone to a bucket (an array, even an empty one, is truthy).
\<close>

definition pushToBucket :: "zones_obj \<Rightarrow> string \<Rightarrow> ParkingZone \<Rightarrow> zones_obj" where
  "pushToBucket zs k z =
     (case map_of zs k of
        None \<Rightarrow> objSet zs k [z]
      | Some bucket \<Rightarrow> objSet zs k (bucket @ [z]))"

section \<open>Schema validator\<close>

text \<open>
  A parsed JSON value, and the result of \<^verbatim>\<open>safeParse\<close>: the data, or the issues, each
  one the path of the key it is about (the messages of Zod are not modelled). The
  parsers follow Zod: a key that the schema does not name is not read, every issue is
  reported, a missing key is an issue unless the schema is optional or has a default.
\<close>

datatype json =
  JNull | JBool bool | JNumber real | JString string
  | JArray "json list" | JObject "(string \<times> json) list"

datatype path_seg = Key string | Index nat

type_synonym issue = "path_seg list"

type_synonym 'a parsed = "issue list + 'a"

fun ap :: "('a \<Rightarrow> 'b) parsed \<Rightarrow> 'a parsed \<Rightarrow> 'b parsed" where
  "ap (Inr f) (Inr x) = Inr (f x)"
| "ap (Inl e) (Inr x) = Inl e"
| "ap (Inr f) (Inl e) = Inl e"
| "ap (Inl e) (Inl e') = Inl (e @ e')"

definition zString :: "(string \<Rightarrow> bool) \<Rightarrow> issue \<Rightarrow> json option \<Rightarrow> string parsed" where
  "zString ok path v =
     (case v of Some (JString s) \<Rightarrow> if ok s then Inr s else Inl [path] | _ \<Rightarrow> Inl [path])"

definition zNumber :: "(real \<Rightarrow> bool) \<Rightarrow> issue \<Rightarrow> json option \<Rightarrow> real parsed" where
  "zNumber ok path v =
     (case v of Some (JNumber x) \<Rightarrow> if ok x then Inr x else Inl [path] | _ \<Rightarrow> Inl [path])"

definition zBoolean :: "issue \<Rightarrow> json option \<Rightarrow> bool parsed" where
  "zBoolean path v = (case v of Some (JBool b) \<Rightarrow> Inr b | _ \<Rightarrow> Inl [path])"

definition zEnum :: "(string \<times> 'a) list \<Rightarrow> issue \<Rightarrow> json option \<Rightarrow> 'a parsed" where
  "zEnum values path v =
     (case v of
        Some (JString s) \<Rightarrow> (case map_of values s of Some e \<Rightarrow> Inr e | None \<Rightarrow> Inl [path])
      | _ \<Rightarrow> Inl [path])"

definition zOptional :: "(issue \<Rightarrow> json option \<Rightarrow> 'a parsed) \<Rightarrow> issue \<Rightarrow> json option \<Rightarrow> 'a option parsed" where
  "zOptional p path v = (case v of None \<Rightarrow> Inr None | Some j \<Rightarrow> ap (Inr Some) (p path v))"

definition zDefault :: "'a \<Rightarrow> (issue \<Rightarrow> json option \<Rightarrow> 'a parsed) \<Rightarrow> issue \<Rightarrow> json option \<Rightarrow> 'a parsed" where
  "zDefault d p path v = (case v of None \<Rightarrow> Inr d | Some j \<Rightarrow> p path v)"

fun zElements :: "(issue \<Rightarrow> json option \<Rightarrow> 'a parsed) \<Rightarrow> issue \<Rightarrow> nat \<Rightarrow> json list \<Rightarrow> 'a list parsed" where
  "zElements p path i [] = Inr []"
| "zElements p path i (x # xs) =
     ap (ap (Inr (#)) (p (path @ [Index i]) (Some x))) (zElements p path (Suc i) xs)"

definition zArray :: "(issue \<Rightarrow> json option \<Rightarrow> 'a parsed) \<Rightarrow> issue \<Rightarrow> json option \<Rightarrow> 'a list parsed" where
  "zArray p path v = (case v of Some (JArray xs) \<Rightarrow> zElements p path 0 xs | _ \<Rightarrow> Inl [path])"

definition EnforcementType_values :: "(string \<times> EnforcementType) list" where
  "EnforcementType_values =
     [(''government'', et_government), (''private'', et_private), (''council'', et_council),
      (''hospital'', et_hospital), (''university'', et_university), (''airport'', et_airport),
      (''shopping_centre'', et_shopping_centre), (''residential'', et_residential),
      (''other'', et_other)]"

definition EnforcementMethod_values :: "(string \<times> EnforcementMethod) list" where
  "EnforcementMethod_values =
     [(''camera_anpr'', em_camera_anpr), (''physical_warden'', em_physical_warden),
      (''ticket_machine'', em_ticket_machine), (''pay_and_display'', em_pay_and_display),
      (''barrier'', em_barrier), (''clamp'', em_clamp), (''tow'', em_tow),
      (''mixed'', em_mixed), (''unknown'', em_unknown)]"

text \<open>The regular expression \<^verbatim>\<open>/^\d{2}:\d{2}$/\<close>.\<close>

definition isHHMM :: "string \<Rightarrow> bool" where
  "isHHMM s =
     (case s of
        [a, b, c, d, e] \<Rightarrow> isDigit a \<and> isDigit b \<and> c = CHR '':'' \<and> isDigit d \<and> isDigit e
      | _ \<Rightarrow> False)"

definition parseOperatingHours :: "issue \<Rightarrow> json option \<Rightarrow> OperatingHours parsed" where
  "parseOperatingHours path v =
     (case v of
        Some (JObject kvs) \<Rightarrow>
          ap (ap (ap (ap (Inr (\<lambda>d s e f.
                \<lparr>dayOfWeek = d, startTime = s, endTime = e, enforced = f\<rparr>))
            (zNumber (\<lambda>x. 0 \<le> x \<and> x \<le> 6) (path @ [Key ''dayOfWeek'']) (map_of kvs ''dayOfWeek'')))
            (zString isHHMM (path @ [Key ''startTime'']) (map_of kvs ''startTime'')))
            (zString isHHMM (path @ [Key ''endTime'']) (map_of kvs ''endTime'')))
            (zBoolean (path @ [Key ''enforced'']) (map_of kvs ''enforced''))
      | _ \<Rightarrow> Inl [path])"

definition parseLatLng :: "issue \<Rightarrow> json option \<Rightarrow> LatLng parsed" where
  "parseLatLng path v =
     (case v of
        Some (JObject kvs) \<Rightarrow>
          ap (ap (Inr (\<lambda>la lo. \<lparr>lat = la, lng = lo\<rparr>))
            (zNumber (\<lambda>x. - 90 \<le> x \<and> x \<le> 90) (path @ [Key ''lat'']) (map_of kvs ''lat'')))
            (zNumber (\<lambda>x. - 180 \<le> x \<and> x \<le> 180) (path @ [Key ''lng'']) (map_of kvs ''lng''))
      | _ \<Rightarrow> Inl [path])"

text \<open>
  \<^verbatim>\<open>ParkingZoneSubmission.safeParse\<close>: the keys of \<^verbatim>\<open>ParkingZone\<close> without \<^verbatim>\<open>id\<close>,
  \<^verbatim>\<open>verified\<close> and \<^verbatim>\<open>version\<close>, each with the checks of its line of the schema.
\<close>

definition parseSubmissionKeys :: "(string \<Rightarrow> json option) \<Rightarrow> ParkingZoneSubmission parsed" where
  "parseSubmissionKeys get =
     ap (ap (ap (ap (ap (ap (ap (ap (ap (ap (ap (ap (ap (ap (ap (ap (ap (ap (ap
       (Inr (\<lambda>n d c r p et em ec lc fm ms ch cu oh nr rt co re ci.
          \<lparr>name = n, description = d, center = c, radius = r, polygon = p,
           enforcementType = et, enforcementMethod = em, enforcementCompany = ec,
           legislationCode = lc, freeMinutes = fm, maxStayMinutes = ms,
           chargePerHour = ch, currency = cu, operatingHours = oh,
           noReturnMinutes = nr, reparkingTips = rt, country = co, region = re,
           city = ci\<rparr>))
       (zString (\<lambda>s. 1 \<le> length s) [Key ''name''] (get ''name'')))
       (zOptional (zString (\<lambda>s. True)) [Key ''description''] (get ''description'')))
       (parseLatLng [Key ''center''] (get ''center'')))
       (zNumber (\<lambda>x. 0 < x) [Key ''radius''] (get ''radius'')))
       (zOptional (zArray parseLatLng) [Key ''polygon''] (get ''polygon'')))
       (zEnum EnforcementType_values [Key ''enforcementType''] (get ''enforcementType'')))
       (zEnum EnforcementMethod_values [Key ''enforcementMethod''] (get ''enforcementMethod'')))
       (zOptional (zString (\<lambda>s. True)) [Key ''enforcementCompany''] (get ''enforcementCompany'')))
       (zOptional (zString (\<lambda>s. True)) [Key ''legislationCode''] (get ''legislationCode'')))
       (zDefault 0 (zNumber (\<lambda>x. 0 \<le> x)) [Key ''freeMinutes''] (get ''freeMinutes'')))
       (zOptional (zNumber (\<lambda>x. 0 \<le> x)) [Key ''maxStayMinutes''] (get ''maxStayMinutes'')))
       (zOptional (zNumber (\<lambda>x. 0 \<le> x)) [Key ''chargePerHour''] (get ''chargePerHour'')))
       (zDefault ''GBP'' (zString (\<lambda>s. length s = 3)) [Key ''currency''] (get ''currency'')))
       (zOptional (zArray parseOperatingHours) [Key ''operatingHours''] (get ''operatingHours'')))
       (zOptional (zNumber (\<lambda>x. 0 \<le> x)) [Key ''noReturnMinutes''] (get ''noReturnMinutes'')))
       (zOptional (zString (\<lambda>s. True)) [Key ''reparkingTips''] (get ''reparkingTips'')))
       (zString (\<lambda>s. 2 \<le> length s \<and> length s \<le> 2) [Key ''country''] (get ''country'')))
       (zString (\<lambda>s. 1 \<le> length s) [Key ''region''] (get ''region'')))
       (zOptional (zString (\<lambda>s. True)) [Key ''city''] (get ''city''))"

definition ParkingZoneSubmission_safeParse :: "json \<Rightarrow> ParkingZoneSubmission parsed" where
  "ParkingZoneSubmission_safeParse raw =
     (case raw of JObject kvs \<Rightarrow> parseSubmissionKeys (map_of kvs) | _ \<Rightarrow> Inl [[]])"

section \<open>Record reconciler: submission\<close>

definition GEOHASH_PRECISION :: nat where
  "GEOHASH_PRECISION = 6"

text \<open>
  \<^verbatim>\<open>generateZoneId(country, region)\<close>; the value of \<^verbatim>\<open>crypto.randomUUID()\<close> is the
  argument \<open>uuid\<close>.
\<close>

definition generateZoneId :: "string \<Rightarrow> string \<Rightarrow> string \<Rightarrow> string" where
  "generateZoneId c r uuid = ''cdn-'' @ c @ ''-'' @ r @ ''-'' @ uuid"

datatype submission_result =
  SubmissionInvalid "issue list"
  | SubmissionDuplicate ParkingZone
  | SubmissionCompleted string CdnZoneIndex

text \<open>
  Steps 2 to 7 of \<^verbatim>\<open>processSubmission\<close>, from the parsed JSON of the issue to the
  content that is committed under the file path. The arguments are what the function
  reads from outside: \<open>geohashEncode\<close> (the encoder of the \<^verbatim>\<open>ngeohash\<close> package),
  \<open>uuid\<close>, the two time stamps \<open>t0\<close> and \<open>t1\<close> of \<^verbatim>\<open>new Date()\<close>, \<open>zoneData\<close>, and
  \<open>existingFile\<close>: the content of the zone file, \<open>None\<close> when the read answers 404.
\<close>

definition processSubmission ::
  "(real \<Rightarrow> real \<Rightarrow> nat \<Rightarrow> string) \<Rightarrow> string \<Rightarrow> string \<Rightarrow> string \<Rightarrow> json
     \<Rightarrow> CdnZoneIndex option \<Rightarrow> submission_result" where
  "processSubmission geohashEncode uuid t0 t1 zoneData existingFile =
     (case ParkingZoneSubmission_safeParse zoneData of
        Inl issues \<Rightarrow> SubmissionInvalid issues
      | Inr zone \<Rightarrow>
          (let filePath = ''zones/'' @ country zone @ ''/'' @ region zone @ ''/zones.json'';
               existingContent =
                 (case existingFile of
                    Some content \<Rightarrow> content
                  | None \<Rightarrow> \<lparr>file_country = country zone, file_region = region zone,
                             lastUpdated = t0, zoneCount = 0, zones = []\<rparr>)
           in case findDuplicate zone (zones existingContent) of
                Some duplicate \<Rightarrow> SubmissionDuplicate duplicate
              | None \<Rightarrow>
                  (let geohash = geohashEncode (lat (center zone)) (lng (center zone))
                                   GEOHASH_PRECISION;
                       zoneId = generateZoneId (country zone) (region zone) uuid;
                       fullZone = ParkingZoneSubmission.extend zone
                                    (ParkingZone.fields zoneId False 1);
                       zones' = pushToBucket (zones existingContent) geohash fullZone;
                       totalCount = foldl (\<lambda>n bucket. n + length bucket) 0 (map snd zones')
                   in SubmissionCompleted filePath
                        (existingContent\<lparr>zones := zones', zoneCount := totalCount,
                                          lastUpdated := t1\<rparr>))))"

section \<open>Record reconciler: update\<close>

text \<open>
  The \<^verbatim>\<open>changes\<close> of an update payload: every key of a zone, each one optional. The
  update schema omits \<^verbatim>\<open>id\<close>, \<^verbatim>\<open>verified\<close> and \<^verbatim>\<open>version\<close>; the three stay fields
  of the model (\<open>None\<close> in validated data), so that the object spread of
  \<^verbatim>\<open>processUpdate\<close> is modelled on any object.
\<close>

record ZoneChanges =
  ch_name :: "string option"
  ch_description :: "string option"
  ch_center :: "LatLng option"
  ch_radius :: "real option"
  ch_polygon :: "LatLng list option"
  ch_enforcementType :: "EnforcementType option"
  ch_enforcementMethod :: "EnforcementMethod option"
  ch_enforcementCompany :: "string option"
  ch_legislationCode :: "string option"
  ch_freeMinutes :: "real option"
  ch_maxStayMinutes :: "real option"
  ch_chargePerHour :: "real option"
  ch_currency :: "string option"
  ch_operatingHours :: "OperatingHours list option"
  ch_noReturnMinutes :: "real option"
  ch_reparkingTips :: "string option"
  ch_country :: "string option"
  ch_region :: "string option"
  ch_city :: "string option"
  ch_id :: "string option"
  ch_verified :: "bool option"
  ch_version :: "int option"

definition keyIf :: "'a option \<Rightarrow> string \<Rightarrow> string list" where
  "keyIf v k = (case v of None \<Rightarrow> [] | Some x \<Rightarrow> [k])"

text \<open>\<^verbatim>\<open>Object.keys(changes)\<close>\<close>

definition changeKeys :: "ZoneChanges \<Rightarrow> string list" where
  "changeKeys c =
     keyIf (ch_id c) ''id'' @ keyIf (ch_name c) ''name''
     @ keyIf (ch_description c) ''description'' @ keyIf (ch_center c) ''center''
     @ keyIf (ch_radius c) ''radius'' @ keyIf (ch_polygon c) ''polygon''
     @ keyIf (ch_enforcementType c) ''enforcementType''
     @ keyIf (ch_enforcementMethod c) ''enforcementMethod''
     @ keyIf (ch_enforcementCompany c) ''enforcementCompany''
     @ keyIf (ch_legislationCode c) ''legislationCode''
     @ keyIf (ch_freeMinutes c) ''freeMinutes''
     @ keyIf (ch_maxStayMinutes c) ''maxStayMinutes''
     @ keyIf (ch_chargePerHour c) ''chargePerHour'' @ keyIf (ch_currency c) ''currency''
     @ keyIf (ch_operatingHours c) ''operatingHours''
     @ keyIf (ch_noReturnMinutes c) ''noReturnMinutes''
     @ keyIf (ch_reparkingTips c) ''reparkingTips'' @ keyIf (ch_country c) ''country''
     @ keyIf (ch_region c) ''region'' @ keyIf (ch_city c) ''city''
     @ keyIf (ch_verified c) ''verified'' @ keyIf (ch_version c) ''version''"

text \<open>
  A key of the spread \<^verbatim>\<open>{ ...existingZone, ...changes }\<close>: the value of \<^verbatim>\<open>changes\<close>
  when it has the key, the value of the zone otherwise.
\<close>

definition spreadKey :: "'a \<Rightarrow> 'a option \<Rightarrow> 'a" where
  "spreadKey old new = (case new of Some v \<Rightarrow> v | None \<Rightarrow> old)"

definition spreadOptionalKey :: "'a option \<Rightarrow> 'a option \<Rightarrow> 'a option" where
  "spreadOptionalKey old new = (case new of Some v \<Rightarrow> Some v | None \<Rightarrow> old)"

definition spreadChanges :: "ParkingZone \<Rightarrow> ZoneChanges \<Rightarrow> ParkingZone" where
  "spreadChanges z c =
     \<lparr>name = spreadKey (name z) (ch_name c),
      description = spreadOptionalKey (description z) (ch_description c),
      center = spreadKey (center z) (ch_center c),
      radius = spreadKey (radius z) (ch_radius c),
      polygon = spreadOptionalKey (polygon z) (ch_polygon c),
      enforcementType = spreadKey (enforcementType z) (ch_enforcementType c),
      enforcementMethod = spreadKey (enforcementMethod z) (ch_enforcementMethod c),
      enforcementCompany = spreadOptionalKey (enforcementCompany z) (ch_enforcementCompany c),
      legislationCode = spreadOptionalKey (legislationCode z) (ch_legislationCode c),
      freeMinutes = spreadKey (freeMinutes z) (ch_freeMinutes c),
      maxStayMinutes = spreadOptionalKey (maxStayMinutes z) (ch_maxStayMinutes c),
      chargePerHour = spreadOptionalKey (chargePerHour z) (ch_chargePerHour c),
      currency = spreadKey (currency z) (ch_currency c),
      operatingHours = spreadOptionalKey (operatingHours z) (ch_operatingHours c),
      noReturnMinutes = spreadOptionalKey (noReturnMinutes z) (ch_noReturnMinutes c),
      reparkingTips = spreadOptionalKey (reparkingTips z) (ch_reparkingTips c),
      country = spreadKey (country z) (ch_country c),
      region = spreadKey (region z) (ch_region c),
      city = spreadOptionalKey (city z) (ch_city c),
      zone_id = spreadKey (zone_id z) (ch_id c),
      verified = spreadKey (verified z) (ch_verified c),
      version = spreadKey (version z) (ch_version c)\<rparr>"

text \<open>The object literal of step 4: the spread, then the three keys set after it.\<close>

definition updatedZoneOf :: "ParkingZone \<Rightarrow> ZoneChanges \<Rightarrow> ParkingZone" where
  "updatedZoneOf existingZone changes =
     (spreadChanges existingZone changes)
       \<lparr>zone_id := zone_id existingZone,
        verified := verified existingZone,
        version := version existingZone + 1\<rparr>"

text \<open>\<^verbatim>\<open>bucket.findIndex(p)\<close>, with \<open>None\<close> for \<open>-1\<close>.\<close>

fun findIndex :: "('a \<Rightarrow> bool) \<Rightarrow> 'a list \<Rightarrow> nat option" where
  "findIndex p [] = None"
| "findIndex p (x # xs) = (if p x then Some 0 else map_option Suc (findIndex p xs))"

text \<open>
  Step 3, the two nested loops that look for the zone: the first file, in the order of
  the tree, and its first bucket that hold a zone of the id. The result is the position
  of the file in the list, \<^verbatim>\<open>foundFilePath\<close>, \<^verbatim>\<open>existingContent\<close>, \<^verbatim>\<open>foundGeohash\<close>
  and \<^verbatim>\<open>foundIndex\<close>. (A file path starts with \<^verbatim>\<open>zones/\<close>, so \<^verbatim>\<open>foundFilePath\<close> is
  truthy as soon as it is set.)
\<close>

fun findInZones :: "string \<Rightarrow> zones_obj \<Rightarrow> (string \<times> nat) option" where
  "findInZones zoneId [] = None"
| "findInZones zoneId ((geohash, bucket) # rest) =
     (case findIndex (\<lambda>z. zone_id z = zoneId) bucket of
        Some idx \<Rightarrow> Some (geohash, idx)
      | None \<Rightarrow> findInZones zoneId rest)"

fun findZone ::
  "string \<Rightarrow> (string \<times> CdnZoneIndex) list \<Rightarrow> (nat \<times> string \<times> CdnZoneIndex \<times> string \<times> nat) option" where
  "findZone zoneId [] = None"
| "findZone zoneId ((filePath, content) # rest) =
     (case findInZones zoneId (zones content) of
        Some (geohash, idx) \<Rightarrow> Some (0, filePath, content, geohash, idx)
      | None \<Rightarrow> map_option (\<lambda>(i, found). (Suc i, found)) (findZone zoneId rest))"

text \<open>\<^verbatim>\<open>bucket.splice(i, 1)\<close>\<close>

definition spliceOut :: "nat \<Rightarrow> 'a list \<Rightarrow> 'a list" where
  "spliceOut i xs = take i xs @ drop (Suc i) xs"

text \<open>
  Step 4 on the content that was found, in three parts: the new bucket key, the move of
  the zone to another bucket or its replacement in place, and the whole step. In
  \<open>applyChanges\<close>, \<open>None\<close> is the \<^verbatim>\<open>TypeError\<close> of reading a key of \<^verbatim>\<open>undefined\<close>, when
  the content has no such bucket or the bucket no such index.
\<close>

definition newGeohashOf ::
  "(real \<Rightarrow> real \<Rightarrow> nat \<Rightarrow> string) \<Rightarrow> ZoneChanges \<Rightarrow> ParkingZone \<Rightarrow> string \<Rightarrow> string" where
  "newGeohashOf geohashEncode changes updatedZone foundGeohash =
     (if ch_center changes \<noteq> None
      then geohashEncode (lat (center updatedZone)) (lng (center updatedZone)) GEOHASH_PRECISION
      else foundGeohash)"

definition placeUpdatedZone ::
  "zones_obj \<Rightarrow> string \<Rightarrow> nat \<Rightarrow> ParkingZone list \<Rightarrow> string \<Rightarrow> ParkingZone \<Rightarrow> zones_obj" where
  "placeUpdatedZone zs foundGeohash foundIndex bucket newGeohash updatedZone =
     (if newGeohash \<noteq> foundGeohash
      then
        (let spliced = spliceOut foundIndex bucket;
             zones1 = objSet zs foundGeohash spliced;
             zones2 = (if length spliced = 0 then objDelete zones1 foundGeohash else zones1)
         in pushToBucket zones2 newGeohash updatedZone)
      else objSet zs foundGeohash (bucket[foundIndex := updatedZone]))"

definition applyChanges ::
  "(real \<Rightarrow> real \<Rightarrow> nat \<Rightarrow> string) \<Rightarrow> string \<Rightarrow> ZoneChanges \<Rightarrow> string \<Rightarrow> nat
     \<Rightarrow> CdnZoneIndex \<Rightarrow> CdnZoneIndex option" where
  "applyChanges geohashEncode now changes foundGeohash foundIndex existingContent =
     (case map_of (zones existingContent) foundGeohash of
        None \<Rightarrow> None
      | Some bucket \<Rightarrow>
          if foundIndex < length bucket
          then
            (let existingZone = bucket ! foundIndex;
                 updatedZone = updatedZoneOf existingZone changes;
                 newGeohash = newGeohashOf geohashEncode changes updatedZone foundGeohash;
                 zones' = placeUpdatedZone (zones existingContent) foundGeohash foundIndex
                            bucket newGeohash updatedZone
             in Some (existingContent\<lparr>zones := zones', lastUpdated := now\<rparr>))
          else None)"

datatype update_status =
  UpdateNoChanges | UpdateNotFound | UpdateInternalError | UpdateCompleted string

text \<open>
  \<^verbatim>\<open>processUpdate\<close> from the validated payload on: the check for an empty \<^verbatim>\<open>changes\<close>,
  the search, the changes. \<open>files\<close> are the zone files of the target branch, each one a
  path and its parsed content; the function returns them as they are in memory at its
  end, with the status it reports.
\<close>

definition processUpdate ::
  "(real \<Rightarrow> real \<Rightarrow> nat \<Rightarrow> string) \<Rightarrow> string \<Rightarrow> string \<Rightarrow> ZoneChanges
     \<Rightarrow> (string \<times> CdnZoneIndex) list \<Rightarrow> update_status \<times> (string \<times> CdnZoneIndex) list" where
  "processUpdate geohashEncode now zoneId changes files =
     (if length (changeKeys changes) = 0 then (UpdateNoChanges, files)
      else
        (case findZone zoneId files of
           None \<Rightarrow> (UpdateNotFound, files)
         | Some (i, foundFilePath, existingContent, foundGeohash, foundIndex) \<Rightarrow>
             (case applyChanges geohashEncode now changes foundGeohash foundIndex
                     existingContent of
                None \<Rightarrow> (UpdateInternalError, files)
              | Some content' \<Rightarrow>
                  (UpdateCompleted foundFilePath, files[i := (foundFilePath, content')]))))"

section \<open>Vocabulary of the properties\<close>

text \<open>The records of a region: the zones of all its buckets.\<close>

definition allZones :: "zones_obj \<Rightarrow> ParkingZone list" where
  "allZones zs = concat (map snd zs)"

text \<open>A coordinate as the schema \<^verbatim>\<open>LatLng\<close> accepts it.\<close>

definition validCoordinate :: "LatLng \<Rightarrow> bool" where
  "validCoordinate c = (- 90 \<le> lat c \<and> lat c \<le> 90 \<and> - 180 \<le> lng c \<and> lng c \<le> 180)"





text \<open>The keys of an object are unique.\<close>

definition wfObject :: "(string \<times> 'v) list \<Rightarrow> bool" where
  "wfObject obj = distinct (map fst obj)"

text \<open>
  The vocabulary of the reconciler: zone files whose objects are well formed, the merge of
  \<^verbatim>\<open>changes\<close> onto a record key by key, the sum of the bucket lengths of a file and the
  invariant that \<^verbatim>\<open>zoneCount\<close> equals it, the number of records of an id in a file, and
  the keys of the buckets that hold a record of an id.
\<close>

definition wfFiles :: "(string \<times> CdnZoneIndex) list \<Rightarrow> bool" where
  "wfFiles files = list_all (\<lambda>f. wfObject (zones (snd f))) files"

definition mergesChanges :: "ParkingZone \<Rightarrow> ZoneChanges \<Rightarrow> ParkingZone \<Rightarrow> bool" where
  "mergesChanges old changes new =
     (name new = (case ch_name changes of Some v \<Rightarrow> v | None \<Rightarrow> name old)
      \<and> description new = (case ch_description changes of Some v \<Rightarrow> Some v | None \<Rightarrow> description old)
      \<and> center new = (case ch_center changes of Some v \<Rightarrow> v | None \<Rightarrow> center old)
      \<and> radius new = (case ch_radius changes of Some v \<Rightarrow> v | None \<Rightarrow> radius old)
      \<and> polygon new = (case ch_polygon changes of Some v \<Rightarrow> Some v | None \<Rightarrow> polygon old)
      \<and> enforcementType new = (case ch_enforcementType changes of Some v \<Rightarrow> v | None \<Rightarrow> enforcementType old)
      \<and> enforcementMethod new = (case ch_enforcementMethod changes of Some v \<Rightarrow> v | None \<Rightarrow> enforcementMethod old)
      \<and> enforcementCompany new = (case ch_enforcementCompany changes of Some v \<Rightarrow> Some v | None \<Rightarrow> enforcementCompany old)
      \<and> legislationCode new = (case ch_legislationCode changes of Some v \<Rightarrow> Some v | None \<Rightarrow> legislationCode old)
      \<and> freeMinutes new = (case ch_freeMinutes changes of Some v \<Rightarrow> v | None \<Rightarrow> freeMinutes old)
      \<and> maxStayMinutes new = (case ch_maxStayMinutes changes of Some v \<Rightarrow> Some v | None \<Rightarrow> maxStayMinutes old)
      \<and> chargePerHour new = (case ch_chargePerHour changes of Some v \<Rightarrow> Some v | None \<Rightarrow> chargePerHour old)
      \<and> currency new = (case ch_currency changes of Some v \<Rightarrow> v | None \<Rightarrow> currency old)
      \<and> operatingHours new = (case ch_operatingHours changes of Some v \<Rightarrow> Some v | None \<Rightarrow> operatingHours old)
      \<and> noReturnMinutes new = (case ch_noReturnMinutes changes of Some v \<Rightarrow> Some v | None \<Rightarrow> noReturnMinutes old)
      \<and> reparkingTips new = (case ch_reparkingTips changes of Some v \<Rightarrow> Some v | None \<Rightarrow> reparkingTips old)
      \<and> country new = (case ch_country changes of Some v \<Rightarrow> v | None \<Rightarrow> country old)
      \<and> region new = (case ch_region changes of Some v \<Rightarrow> v | None \<Rightarrow> region old)
      \<and> city new = (case ch_city changes of Some v \<Rightarrow> Some v | None \<Rightarrow> city old))"

definition bucketLengthSum :: "zones_obj \<Rightarrow> nat" where
  "bucketLengthSum zs = sum_list (map (\<lambda>(geohash, bucket). length bucket) zs)"

definition countInvariant :: "CdnZoneIndex \<Rightarrow> bool" where
  "countInvariant content = (zoneCount content = bucketLengthSum (zones content))"

definition occurrences :: "string \<Rightarrow> zones_obj \<Rightarrow> nat" where
  "occurrences zoneId zs = length (filter (\<lambda>z. zone_id z = zoneId) (allZones zs))"

definition bucketsHolding :: "string \<Rightarrow> zones_obj \<Rightarrow> string list" where
  "bucketsHolding zoneId zs =
     map fst (filter (\<lambda>(geohash, bucket). list_ex (\<lambda>z. zone_id z = zoneId) bucket) zs)"

text \<open>
  The vocabulary of the submission: \<^verbatim>\<open>s.endsWith(t)\<close>, the zones of the file that was read
  (none after a 404), and the three keys that the system assigns.
\<close>

definition endsWith :: "string \<Rightarrow> string \<Rightarrow> bool" where
  "endsWith s t = (length t \<le> length s \<and> drop (length s - length t) s = t)"

definition zonesOfRead :: "CdnZoneIndex option \<Rightarrow> zones_obj" where
  "zonesOfRead existingFile = (case existingFile of Some content \<Rightarrow> zones content | None \<Rightarrow> [])"

definition systemKeys :: "string set" where
  "systemKeys = {''id'', ''verified'', ''version''}"

text \<open>The term under the square root of \<open>distanceMeters\<close>.\<close>

definition haversine :: "LatLng \<Rightarrow> LatLng \<Rightarrow> real" where
  "haversine a b =
     sin ((lat b - lat a) * pi / 180 / 2) * sin ((lat b - lat a) * pi / 180 / 2) +
     cos (lat a * pi / 180) * cos (lat b * pi / 180) *
     sin ((lng b - lng a) * pi / 180 / 2) * sin ((lng b - lng a) * pi / 180 / 2)"

section \<open>Example data\<close>

definition exampleZone :: "string \<Rightarrow> string \<Rightarrow> real \<Rightarrow> real \<Rightarrow> real \<Rightarrow> ParkingZone" where
  "exampleZone i n la lo r =
     \<lparr>name = n, description = None, center = \<lparr>lat = la, lng = lo\<rparr>, radius = r,
      polygon = None, enforcementType = et_council, enforcementMethod = em_camera_anpr,
      enforcementCompany = None, legislationCode = None, freeMinutes = 0,
      maxStayMinutes = None, chargePerHour = None, currency = ''NZD'',
      operatingHours = None, noReturnMinutes = None, reparkingTips = None,
      country = ''NZ'', region = ''auckland'', city = None,
      zone_id = i, verified = False, version = 1\<rparr>"

definition exampleFile :: "string \<Rightarrow> nat \<Rightarrow> zones_obj \<Rightarrow> CdnZoneIndex" where
  "exampleFile r n zs =
     \<lparr>file_country = ''NZ'', file_region = r, lastUpdated = ''2026-01-01T00:00:00.000Z'',
      zoneCount = n, zones = zs\<rparr>"

definition exampleFiles :: "CdnZoneIndex list" where
  "exampleFiles =
     [exampleFile ''wellington'' 0 [],
      exampleFile ''auckland'' 1
        [(''rckq2u'', [exampleZone ''a'' ''Britomart'' (- 3684 / 100) (17477 / 100) 50])]]"


definition noChanges :: ZoneChanges where
  "noChanges =
     \<lparr>ch_name = None, ch_description = None, ch_center = None, ch_radius = None,
      ch_polygon = None, ch_enforcementType = None, ch_enforcementMethod = None,
      ch_enforcementCompany = None, ch_legislationCode = None, ch_freeMinutes = None,
      ch_maxStayMinutes = None, ch_chargePerHour = None, ch_currency = None,
      ch_operatingHours = None, ch_noReturnMinutes = None, ch_reparkingTips = None,
      ch_country = None, ch_region = None, ch_city = None, ch_id = None,
      ch_verified = None, ch_version = None\<rparr>"

definition exampleBritomart :: ParkingZone where
  "exampleBritomart =
     exampleZone ''cdn-NZ-auckland-1'' ''Britomart'' (- 3684 / 100) (17477 / 100) 50"

definition exampleWharf :: ParkingZone where
  "exampleWharf = exampleZone ''cdn-NZ-auckland-2'' ''Wharf'' (- 3681 / 100) (17479 / 100) 30"

definition exampleAuckland :: CdnZoneIndex where
  "exampleAuckland =
     exampleFile ''auckland'' 2 [(''rckq2u'', [exampleBritomart]), (''rckq3h'', [exampleWharf])]"

definition exampleRepo :: "(string \<times> CdnZoneIndex) list" where
  "exampleRepo =
     [(''zones/NZ/wellington/zones.json'', exampleFile ''wellington'' 0 []),
      (''zones/NZ/auckland/zones.json'', exampleAuckland)]"

definition exampleChanges :: ZoneChanges where
  "exampleChanges =
     noChanges\<lparr>ch_name := Some ''Britomart East'',
               ch_center := Some \<lparr>lat = - 3680 / 100, lng = 17480 / 100\<rparr>,
               ch_id := Some ''cdn-XX-other-0'', ch_verified := Some True,
               ch_version := Some 99\<rparr>"

definition exampleSubmissionJson :: "json \<Rightarrow> json \<Rightarrow> json \<Rightarrow> json" where
  "exampleSubmissionJson i v n =
     JObject
       [(''id'', i), (''name'', JString ''Queen  Street Car Park''),
        (''center'', JObject [(''lat'', JNumber (- 3684 / 100)), (''lng'', JNumber (17477 / 100))]),
        (''radius'', JNumber 40), (''verified'', v),
        (''enforcementType'', JString ''council''),
        (''enforcementMethod'', JString ''pay_and_display''),
        (''maxStayMinutes'', JNumber 120), (''version'', n),
        (''country'', JString ''NZ''), (''region'', JString ''auckland'')]"

definition exampleParsed :: ParkingZoneSubmission where
  "exampleParsed =
     \<lparr>name = ''Queen  Street Car Park'', description = None,
      center = \<lparr>lat = - 3684 / 100, lng = 17477 / 100\<rparr>, radius = 40,
      polygon = None, enforcementType = et_council, enforcementMethod = em_pay_and_display,
      enforcementCompany = None, legislationCode = None, freeMinutes = 0,
      maxStayMinutes = Some 120, chargePerHour = None, currency = ''GBP'',
      operatingHours = None, noReturnMinutes = None, reparkingTips = None,
      country = ''NZ'', region = ''auckland'', city = None\<rparr>"

definition exampleFar :: CdnZoneIndex where
  "exampleFar =
     exampleFile ''auckland'' 1
       [(''rckq2u'', [exampleZone ''cdn-NZ-auckland-7'' ''Far North'' (2316 / 100) (17477 / 100) 25])]"

definition exampleUuid :: string where
  "exampleUuid = ''3b241101-e2bb-4255-8caf-4136c566a962''"

definition exampleCreated :: CdnZoneIndex where
  "exampleCreated =
     \<lparr>file_country = ''NZ'', file_region = ''auckland'',
      lastUpdated = ''2026-03-01T00:00:01.000Z'', zoneCount = 2,
      zones =
        [(''rckq2u'',
          [exampleZone ''cdn-NZ-auckland-7'' ''Far North'' (2316 / 100) (17477 / 100) 25,
           ParkingZoneSubmission.extend exampleParsed
             (ParkingZone.fields ''cdn-NZ-auckland-3b241101-e2bb-4255-8caf-4136c566a962''
                False 1)])]\<rparr>"

section \<open>Properties of the geospatial math\<close>

lemma distanceMeters_same: "distanceMeters a a = 0"
  by (simp add: distanceMeters_def)

lemma sin_half_diff:
  "sin ((x - y) * pi / 180 / 2) = - sin ((y - x) * pi / 180 / 2)" for x y :: real
proof -
  have "(x - y) * pi / 180 / 2 = - ((y - x) * pi / 180 / 2)"
    by (simp add: field_simps)
  then show ?thesis
    by (simp only: sin_minus)
qed

lemma distanceMeters_commute: "distanceMeters a b = distanceMeters b a"
proof -
  have h: "sin ((lat b - lat a) * pi / 180 / 2) * sin ((lat b - lat a) * pi / 180 / 2) +
           cos (lat a * pi / 180) * cos (lat b * pi / 180) *
           sin ((lng b - lng a) * pi / 180 / 2) * sin ((lng b - lng a) * pi / 180 / 2)
         = sin ((lat a - lat b) * pi / 180 / 2) * sin ((lat a - lat b) * pi / 180 / 2) +
           cos (lat b * pi / 180) * cos (lat a * pi / 180) *
           sin ((lng a - lng b) * pi / 180 / 2) * sin ((lng a - lng b) * pi / 180 / 2)"
    unfolding sin_half_diff [of "lat b" "lat a"] sin_half_diff [of "lng b" "lng a"]
    by (simp add: mult.commute)
  show ?thesis
    unfolding distanceMeters_def Let_def
    by (simp only: h)
qed

text \<open>
  C9: for all coordinates \<open>a\<close> and \<open>b\<close>, \<open>distanceMeters a a\<close> is zero and
  \<open>distanceMeters a b\<close> equals \<open>distanceMeters b a\<close> (over the real numbers).
\<close>

theorem C9_distanceMeters_zero_symmetric:
  "distanceMeters a a = 0 \<and> distanceMeters a b = distanceMeters b a"
  using distanceMeters_same [of a] distanceMeters_commute [of a b] by (rule conjI)

theorem C9_distanceMeters_zero_symmetric_witness:
  "distanceMeters \<lparr>lat = - 368442 / 10000, lng = 1747681 / 10000\<rparr>
                  \<lparr>lat = - 368442 / 10000, lng = 1747681 / 10000\<rparr> = 0
   \<and> distanceMeters \<lparr>lat = - 368442 / 10000, lng = 1747681 / 10000\<rparr> \<lparr>lat = 515 / 10, lng = 0\<rparr>
     = distanceMeters \<lparr>lat = 515 / 10, lng = 0\<rparr> \<lparr>lat = - 368442 / 10000, lng = 1747681 / 10000\<rparr>"
  using C9_distanceMeters_zero_symmetric
    [of "\<lparr>lat = - 368442 / 10000, lng = 1747681 / 10000\<rparr>" "\<lparr>lat = 515 / 10, lng = 0\<rparr>"]
  by simp

section \<open>Properties of the bounding box\<close>

lemma foldl_buckets_concat:
  "foldl (\<lambda>b bucket. foldl f b bucket) b0 xss = foldl f b0 (concat xss)"
  by (induction xss arbitrary: b0) simp_all











lemma bboxScan_concat: "bboxScan zs = foldl bboxStep bboxInit (concat (map snd zs))"
  by (simp add: bboxScan_def foldl_buckets_concat)

lemma computeBbox_script_eq: "computeBbox_script zs = computeBbox zs"
  by (simp add: computeBbox_script_def computeBbox_def bboxScan_def bboxInit_def)

lemma computeBbox_no_records:
  assumes "concat (map snd zs) = []"
  shows "computeBbox zs = \<lparr>north = - 899 / 10, south = 90, east = - 1799 / 10, west = 180\<rparr>"
proof -
  have "bboxScan zs = bboxInit"
    by (simp only: bboxScan_concat assms foldl_Nil)
  then show ?thesis
    by (simp add: computeBbox_def bboxInit_def mathRound_def Let_def)
qed




text \<open>
  C10: when no bucket of the zones object holds a record (no bucket at all, or empty
  buckets only), both copies of \<open>computeBbox\<close> return the box of the padded and rounded
  initial values, north -89.9, south 90, east -179.9, west 180: north is below south and
  east below west.
\<close>

theorem C10_computeBbox_empty:
  assumes "allZones zs = []"
  shows "computeBbox zs = \<lparr>north = - 899 / 10, south = 90, east = - 1799 / 10, west = 180\<rparr>
       \<and> computeBbox_script zs = \<lparr>north = - 899 / 10, south = 90, east = - 1799 / 10, west = 180\<rparr>
       \<and> north (computeBbox zs) < south (computeBbox zs)
       \<and> east (computeBbox zs) < west (computeBbox zs)"
proof -
  have "concat (map snd zs) = []"
    using assms by (simp only: allZones_def)
  then have "computeBbox zs = \<lparr>north = - 899 / 10, south = 90, east = - 1799 / 10, west = 180\<rparr>"
    by (rule computeBbox_no_records)
  then show ?thesis
    by (simp add: computeBbox_script_eq)
qed

theorem C10_computeBbox_empty_witness:
  "computeBbox [] = \<lparr>north = - 899 / 10, south = 90, east = - 1799 / 10, west = 180\<rparr>
   \<and> computeBbox [(''rckq2u'', []), (''rckq2v'', [])]
       = \<lparr>north = - 899 / 10, south = 90, east = - 1799 / 10, west = 180\<rparr>
   \<and> computeBbox_script [(''rckq2u'', []), (''rckq2v'', [])]
       = \<lparr>north = - 899 / 10, south = 90, east = - 1799 / 10, west = 180\<rparr>"
  using C10_computeBbox_empty [of "[]"]
    C10_computeBbox_empty [of "[(''rckq2u'', []), (''rckq2v'', [])]"]
  by (simp add: allZones_def)


section \<open>Properties of the manifest builder\<close>

lemma foldl_push_map: "foldl (\<lambda>rs d. rs @ [f d]) acc xs = acc @ map f xs"
  by (induction xs arbitrary: acc) simp_all

text \<open>
  C6: the regions of \<open>buildManifest\<close> do not depend on the time stamp; they are the
  entries of the files, one per file and in the order of the files, each with the
  country, region and zone count of its file and the box of its zones.
\<close>

theorem C6_buildManifest_deterministic:
  "regions (buildManifest t1 zoneFiles) = regions (buildManifest t2 zoneFiles)
   \<and> regions (buildManifest t1 zoneFiles) = map manifestEntry zoneFiles
   \<and> length (regions (buildManifest t1 zoneFiles)) = length zoneFiles
   \<and> (\<forall>i < length zoneFiles.
        regions (buildManifest t1 zoneFiles) ! i =
          \<lparr>region_country = file_country (zoneFiles ! i),
           region_region = file_region (zoneFiles ! i),
           bbox = computeBbox (zones (zoneFiles ! i)),
           region_zoneCount = zoneCount (zoneFiles ! i)\<rparr>)"
  by (simp add: buildManifest_def foldl_push_map manifestEntry_def)

theorem C6_buildManifest_deterministic_witness:
  "regions (buildManifest ''2026-01-02T00:00:00.000Z'' exampleFiles)
     = regions (buildManifest ''2026-01-03T00:00:00.000Z'' exampleFiles)
   \<and> map region_region (regions (buildManifest ''2026-01-02T00:00:00.000Z'' exampleFiles))
     = [''wellington'', ''auckland'']"
proof -
  note t = C6_buildManifest_deterministic
    [of "''2026-01-02T00:00:00.000Z''" exampleFiles "''2026-01-03T00:00:00.000Z''"]
  have r: "regions (buildManifest ''2026-01-02T00:00:00.000Z'' exampleFiles)
             = map manifestEntry exampleFiles"
    by (rule t [THEN conjunct2, THEN conjunct1])
  have "map region_region (map manifestEntry exampleFiles) = [''wellington'', ''auckland'']"
    by (simp add: manifestEntry_def exampleFiles_def exampleFile_def)
  then have "map region_region (regions (buildManifest ''2026-01-02T00:00:00.000Z'' exampleFiles))
     = [''wellington'', ''auckland'']"
    by (simp only: r)
  with t [THEN conjunct1] show ?thesis
    by (rule conjI)
qed

section \<open>Properties of the duplicate detector\<close>





















lemma nameSimilarity_britomart:
  "nameSimilarity ''Britomart Transport Centre'' ''britomart transport centre'' = 1"
  by code_simp


section \<open>Properties of objects and of the search\<close>

lemma map_of_insertIndexKey:
  "map_of obj k = None \<Longrightarrow>
     map_of (insertIndexKey n k v obj) k' = (if k' = k then Some v else map_of obj k')"
  by (induction obj) (auto split: option.splits if_splits)

lemma map_of_objSet:
  "map_of (objSet obj k v) k' = (if k' = k then Some v else map_of obj k')"
proof (cases "map_of obj k")
  case None
  then show ?thesis
    by (auto simp: objSet_def objHas_def map_of_insertIndexKey map_add_def
          split: option.splits)
next
  case (Some a)
  have "map_of (map (\<lambda>(k', v'). if k' = k then (k', v) else (k', v')) obj) k'
          = (if k' = k then map_option (\<lambda>_. v) (map_of obj k) else map_of obj k')"
    by (induction obj) auto
  with Some show ?thesis
    by (simp add: objSet_def objHas_def)
qed

lemma map_of_objDelete:
  "map_of (objDelete obj k) k' = (if k' = k then None else map_of obj k')"
  unfolding objDelete_def by (induction obj) auto

lemma keys_insertIndexKey: "fst ` set (insertIndexKey n k v obj) = insert k (fst ` set obj)"
proof (induction obj)
  case Nil
  show ?case by simp
next
  case (Cons a obj)
  obtain k' v' where a: "a = (k', v')"
    by (cases a)
  show ?case
  proof (cases "arrayIndex k'")
    case None
    then show ?thesis by (simp add: a)
  next
    case (Some m)
    show ?thesis
    proof (cases "m < n")
      case True
      with Some Cons.IH show ?thesis by (simp add: a insert_commute)
    next
      case False
      with Some show ?thesis by (simp add: a)
    qed
  qed
qed

lemma distinct_insertIndexKey:
  "distinct (map fst obj) \<Longrightarrow> k \<notin> set (map fst obj) \<Longrightarrow>
     distinct (map fst (insertIndexKey n k v obj))"
proof (induction obj)
  case Nil
  then show ?case by simp
next
  case (Cons a obj)
  then show ?case
    using keys_insertIndexKey [of n k v obj]
    by (cases a) (auto split: option.splits)
qed

lemma map_fst_replace:
  "map (fst \<circ> (\<lambda>(k', v'). if k' = k then (k', v) else (k', v'))) obj = map fst obj"
  by (induction obj) auto

lemma wfObject_objSet: "wfObject obj \<Longrightarrow> wfObject (objSet obj k v)"
  unfolding wfObject_def objSet_def objHas_def
  by (auto simp: map_fst_replace distinct_insertIndexKey map_of_eq_None_iff
        split: option.splits)

lemma wfObject_objDelete: "wfObject obj \<Longrightarrow> wfObject (objDelete obj k)"
  unfolding wfObject_def objDelete_def by (induction obj) auto

lemma mset_allZones_insertIndexKey:
  "mset (allZones (insertIndexKey n k b zs)) = mset (allZones zs) + mset b"
  by (induction zs) (auto simp: allZones_def split: option.splits)

lemma allZones_simps:
  "allZones [] = []"
  "allZones ((k, b) # zs) = b @ allZones zs"
  "allZones (zs @ zs') = allZones zs @ allZones zs'"
  by (simp_all add: allZones_def)

lemma mset_allZones_objSet_new:
  "map_of zs k = None \<Longrightarrow> mset (allZones (objSet zs k b)) = mset (allZones zs) + mset b"
  by (auto simp: objSet_def objHas_def mset_allZones_insertIndexKey allZones_simps
        split: option.splits)

lemma mset_allZones_replace_absent:
  "k \<notin> set (map fst zs) \<Longrightarrow>
     map (\<lambda>(k', v'). if k' = k then (k', b') else (k', v')) zs = zs"
  by (induction zs) auto

lemma mset_allZones_objSet_existing:
  assumes "wfObject zs" "map_of zs k = Some b"
  shows "mset (allZones (objSet zs k b')) + mset b = mset (allZones zs) + mset b'"
proof -
  have "distinct (map fst zs) \<Longrightarrow> map_of zs k = Some b \<Longrightarrow>
     mset (allZones (map (\<lambda>(k', v'). if k' = k then (k', b') else (k', v')) zs)) + mset b
       = mset (allZones zs) + mset b'"
  proof (induction zs)
    case Nil
    then show ?case by simp
  next
    case (Cons a zs)
    show ?case
    proof (cases "fst a = k")
      case True
      with Cons.prems have "k \<notin> set (map fst zs)" "snd a = b"
        by auto
      with True show ?thesis
        by (cases a) (simp add: allZones_def mset_allZones_replace_absent)
    next
      case False
      with Cons show ?thesis
        by (cases a) (auto simp: allZones_def)
    qed
  qed
  with assms show ?thesis
    by (simp add: objSet_def objHas_def wfObject_def)
qed

lemma mset_allZones_objDelete:
  assumes "wfObject zs" "map_of zs k = Some b"
  shows "mset (allZones (objDelete zs k)) + mset b = mset (allZones zs)"
proof -
  have absent: "k \<notin> set (map fst ys) \<Longrightarrow> filter (\<lambda>(k', v'). k' \<noteq> k) ys = ys"
    for ys :: zones_obj
    by (induction ys) auto
  have "distinct (map fst zs) \<Longrightarrow> map_of zs k = Some b \<Longrightarrow>
     mset (allZones (filter (\<lambda>(k', v'). k' \<noteq> k) zs)) + mset b = mset (allZones zs)"
  proof (induction zs)
    case Nil
    then show ?case by simp
  next
    case (Cons a zs)
    show ?case
    proof (cases "fst a = k")
      case True
      with Cons.prems have "k \<notin> set (map fst zs)" "snd a = b"
        by auto
      with True show ?thesis
        by (cases a) (simp add: allZones_def absent)
    next
      case False
      with Cons show ?thesis
        by (cases a) (auto simp: allZones_def)
    qed
  qed
  with assms show ?thesis
    by (simp add: objDelete_def wfObject_def)
qed

lemma mset_allZones_pushToBucket:
  assumes "wfObject zs"
  shows "mset (allZones (pushToBucket zs k z)) = mset (allZones zs) + {#z#}"
proof (cases "map_of zs k")
  case None
  then show ?thesis
    by (simp add: pushToBucket_def mset_allZones_objSet_new)
next
  case (Some b)
  with mset_allZones_objSet_existing [OF assms Some, of "b @ [z]"] show ?thesis
    by (simp add: pushToBucket_def)
qed

lemma wfObject_pushToBucket: "wfObject zs \<Longrightarrow> wfObject (pushToBucket zs k z)"
  by (simp add: pushToBucket_def wfObject_objSet split: option.splits)

lemma map_of_pushToBucket:
  "map_of (pushToBucket zs k z) k' =
     (if k' = k then Some ((case map_of zs k of None \<Rightarrow> [] | Some b \<Rightarrow> b) @ [z])
      else map_of zs k')"
  by (simp add: pushToBucket_def map_of_objSet split: option.splits)


lemma findIndex_Some: "findIndex p xs = Some i \<Longrightarrow> i < length xs \<and> p (xs ! i)"
  by (induction xs arbitrary: i) (auto split: if_splits)

lemma findIndex_None: "findIndex p xs = None \<longleftrightarrow> (\<forall>x\<in>set xs. \<not> p x)"
  by (induction xs) auto

lemma findInZones_Some:
  assumes "wfObject zs" "findInZones zoneId zs = Some (gh, idx)"
  shows "\<exists>b. map_of zs gh = Some b \<and> idx < length b \<and> zone_id (b ! idx) = zoneId"
  using assms
proof (induction zs)
  case Nil
  then show ?case by simp
next
  case (Cons a zs)
  obtain k bucket where a: "a = (k, bucket)"
    by (cases a)
  show ?case
  proof (cases "findIndex (\<lambda>z. zone_id z = zoneId) bucket")
    case (Some i)
    with Cons.prems a have "gh = k" "idx = i"
      by simp_all
    with Some a findIndex_Some [OF Some] show ?thesis
      by simp
  next
    case None
    with Cons.prems a have rest: "findInZones zoneId zs = Some (gh, idx)"
      by simp
    from Cons.prems a have wf: "wfObject zs" and k: "k \<notin> fst ` set zs"
      by (simp_all add: wfObject_def)
    from Cons.IH [OF wf rest] obtain b where
      b: "map_of zs gh = Some b" "idx < length b" "zone_id (b ! idx) = zoneId"
      by blast
    from b(1) have "gh \<in> fst ` set zs"
      by (meson domI domIff map_of_eq_None_iff)
    with k have "gh \<noteq> k"
      by blast
    with b a show ?thesis
      by simp
  qed
qed

lemma findInZones_None:
  "findInZones zoneId zs = None \<longleftrightarrow> (\<forall>z\<in>set (allZones zs). zone_id z \<noteq> zoneId)"
  by (induction zs) (auto simp: allZones_simps findIndex_None split: option.splits)

lemma findZone_Some:
  "findZone zoneId files = Some (i, path, content, gh, idx) \<Longrightarrow>
     i < length files \<and> files ! i = (path, content)
     \<and> findInZones zoneId (zones content) = Some (gh, idx)"
proof (induction files arbitrary: i)
  case Nil
  then show ?case by simp
next
  case (Cons a files)
  obtain p c where a: "a = (p, c)"
    by (cases a)
  show ?case
  proof (cases "findInZones zoneId (zones c)")
    case (Some found)
    with Cons.prems a show ?thesis
      by (cases found) auto
  next
    case None
    with Cons.prems a obtain j where
      "findZone zoneId files = Some (j, path, content, gh, idx)" "i = Suc j"
      by auto
    with Cons.IH [of j] show ?thesis
      by simp
  qed
qed

lemma findZone_None:
  "findZone zoneId files = None \<longleftrightarrow>
     (\<forall>f\<in>set files. \<forall>z\<in>set (allZones (zones (snd f))). zone_id z \<noteq> zoneId)"
proof (induction files)
  case Nil
  then show ?case by simp
next
  case (Cons a files)
  obtain p c where a: "a = (p, c)"
    by (cases a)
  show ?case
  proof (cases "findInZones zoneId (zones c)")
    case (Some found)
    then have "\<not> (\<forall>z\<in>set (allZones (zones c)). zone_id z \<noteq> zoneId)"
      using findInZones_None [of zoneId "zones c"] by simp
    with Some a show ?thesis
      by (cases found) auto
  next
    case None
    then have "\<forall>z\<in>set (allZones (zones c)). zone_id z \<noteq> zoneId"
      using findInZones_None [of zoneId "zones c"] by simp
    with None a Cons.IH show ?thesis
      by simp
  qed
qed

lemma mset_spliceOut:
  assumes "i < length xs"
  shows "mset (spliceOut i xs) + {#xs ! i#} = mset xs"
proof -
  have "mset xs = mset (take i xs @ xs ! i # drop (Suc i) xs)"
    by (rule arg_cong [OF id_take_nth_drop [OF assms]])
  also have "\<dots> = mset (spliceOut i xs) + {#xs ! i#}"
    by (simp add: spliceOut_def)
  finally show ?thesis
    by (rule sym)
qed

lemma mset_list_update: "i < length xs \<Longrightarrow> mset (xs[i := v]) + {#xs ! i#} = mset xs + {#v#}"
  by (simp add: mset_update)

lemma placeUpdatedZone_props:
  assumes wf: "wfObject zs"
    and b: "map_of zs gh = Some bucket"
    and i: "idx < length bucket"
  shows "mset (allZones (placeUpdatedZone zs gh idx bucket newGh new)) + {#bucket ! idx#}
           = mset (allZones zs) + {#new#}"
    and "wfObject (placeUpdatedZone zs gh idx bucket newGh new)"
    and "\<exists>b'. map_of (placeUpdatedZone zs gh idx bucket newGh new) newGh = Some b' \<and> new \<in> set b'"
    and "newGh \<noteq> gh \<Longrightarrow>
           map_of (placeUpdatedZone zs gh idx bucket newGh new) gh
             = (if spliceOut idx bucket = [] then None else Some (spliceOut idx bucket))"
proof -
  let ?sp = "spliceOut idx bucket"
  let ?z1 = "objSet zs gh ?sp"
  let ?z2 = "if length ?sp = 0 then objDelete ?z1 gh else ?z1"
  have wf1: "wfObject ?z1"
    using wf by (rule wfObject_objSet)
  have wf2: "wfObject ?z2"
  proof (cases "length ?sp = 0")
    case True
    show ?thesis
      unfolding if_P [OF True] by (rule wfObject_objDelete [OF wf1])
  next
    case False
    show ?thesis
      unfolding if_not_P [OF False] by (rule wf1)
  qed
  have m1: "mset (allZones ?z1) + mset bucket = mset (allZones zs) + mset ?sp"
    using wf b by (rule mset_allZones_objSet_existing)
  have get1: "map_of ?z1 gh = Some ?sp"
    by (simp add: map_of_objSet)
  have m2: "mset (allZones ?z2) = mset (allZones ?z1)"
    using mset_allZones_objDelete [OF wf1 get1] by auto
  have moved: "placeUpdatedZone zs gh idx bucket newGh new = pushToBucket ?z2 newGh new"
    if "newGh \<noteq> gh"
    using that by (simp add: placeUpdatedZone_def Let_def)
  have inplace: "placeUpdatedZone zs gh idx bucket newGh new = objSet zs gh (bucket[idx := new])"
    if "newGh = gh"
    using that by (simp add: placeUpdatedZone_def)
  show "mset (allZones (placeUpdatedZone zs gh idx bucket newGh new)) + {#bucket ! idx#}
           = mset (allZones zs) + {#new#}"
  proof (cases "newGh = gh")
    case True
    have "mset (allZones (objSet zs gh (bucket[idx := new]))) + mset bucket
            = mset (allZones zs) + mset (bucket[idx := new])"
      using wf b by (rule mset_allZones_objSet_existing)
    then have "mset (allZones (objSet zs gh (bucket[idx := new]))) + mset bucket + {#bucket ! idx#}
            = mset (allZones zs) + (mset bucket + {#new#})"
      using mset_list_update [OF i, of new] by (simp add: add.assoc)
    then show ?thesis
      by (simp add: inplace [OF True])
  next
    case False
    have "mset (allZones (pushToBucket ?z2 newGh new)) = mset (allZones ?z1) + {#new#}"
      using mset_allZones_pushToBucket [OF wf2] m2 by simp
    then have "mset (allZones (pushToBucket ?z2 newGh new)) + mset bucket
                 = mset (allZones zs) + mset ?sp + {#new#}"
      using m1 by (simp add: add.commute add.left_commute)
    then have "mset (allZones (pushToBucket ?z2 newGh new)) + (mset ?sp + {#bucket ! idx#})
                 = mset (allZones zs) + mset ?sp + {#new#}"
      using mset_spliceOut [OF i] by simp
    then show ?thesis
      by (simp add: moved [OF False])
  qed
  show "wfObject (placeUpdatedZone zs gh idx bucket newGh new)"
  proof (cases "newGh = gh")
    case True
    show ?thesis
      unfolding inplace [OF True] using wf by (rule wfObject_objSet)
  next
    case False
    show ?thesis
      unfolding moved [OF False] using wf2 by (rule wfObject_pushToBucket)
  qed
  show "\<exists>b'. map_of (placeUpdatedZone zs gh idx bucket newGh new) newGh = Some b' \<and> new \<in> set b'"
  proof (cases "newGh = gh")
    case True
    show ?thesis
      unfolding inplace [OF True] using i by (simp add: True map_of_objSet set_update_memI)
  next
    case False
    show ?thesis
      unfolding moved [OF False] by (simp add: map_of_pushToBucket)
  qed
  show "map_of (placeUpdatedZone zs gh idx bucket newGh new) gh
             = (if spliceOut idx bucket = [] then None else Some (spliceOut idx bucket))"
    if "newGh \<noteq> gh"
    unfolding moved [OF that] using that
    by (simp add: map_of_pushToBucket map_of_objDelete map_of_objSet)
qed

section \<open>Properties of the update\<close>

lemma applyChanges_Some:
  assumes "map_of (zones content) gh = Some bucket" "idx < length bucket"
  shows "applyChanges enc now changes gh idx content =
           Some (content\<lparr>zones := placeUpdatedZone (zones content) gh idx bucket
                    (newGeohashOf enc changes (updatedZoneOf (bucket ! idx) changes) gh)
                    (updatedZoneOf (bucket ! idx) changes),
                  lastUpdated := now\<rparr>)"
  using assms by (simp add: applyChanges_def Let_def)

lemma wfFiles_nth: "wfFiles files \<Longrightarrow> i < length files \<Longrightarrow> wfObject (zones (snd (files ! i)))"
  by (simp add: wfFiles_def list_all_length)

lemma processUpdate_completed:
  assumes wf: "wfFiles files"
    and run: "processUpdate enc now zoneId changes files = (UpdateCompleted path, files')"
  shows "\<exists>i content gh idx bucket.
           findZone zoneId files = Some (i, path, content, gh, idx)
           \<and> i < length files \<and> files ! i = (path, content)
           \<and> wfObject (zones content)
           \<and> map_of (zones content) gh = Some bucket \<and> idx < length bucket
           \<and> zone_id (bucket ! idx) = zoneId
           \<and> files' = files[i := (path,
                content\<lparr>zones := placeUpdatedZone (zones content) gh idx bucket
                    (newGeohashOf enc changes (updatedZoneOf (bucket ! idx) changes) gh)
                    (updatedZoneOf (bucket ! idx) changes),
                  lastUpdated := now\<rparr>)]"
proof -
  from run have keys: "length (changeKeys changes) \<noteq> 0"
    by (auto simp: processUpdate_def)
  from run keys obtain i p content gh idx where
    found: "findZone zoneId files = Some (i, p, content, gh, idx)"
    by (cases "findZone zoneId files") (auto simp: processUpdate_def)
  from findZone_Some [OF found] have
    i: "i < length files" and fi: "files ! i = (p, content)"
    and inz: "findInZones zoneId (zones content) = Some (gh, idx)"
    by simp_all
  from wfFiles_nth [OF wf i] fi have wfc: "wfObject (zones content)"
    by simp
  from findInZones_Some [OF wfc inz] obtain bucket where
    b: "map_of (zones content) gh = Some bucket" "idx < length bucket"
       "zone_id (bucket ! idx) = zoneId"
    by blast
  note app = applyChanges_Some [OF b(1) b(2), of enc now changes]
  from run keys found app have "p = path"
    and "files' = files[i := (p,
                content\<lparr>zones := placeUpdatedZone (zones content) gh idx bucket
                    (newGeohashOf enc changes (updatedZoneOf (bucket ! idx) changes) gh)
                    (updatedZoneOf (bucket ! idx) changes),
                  lastUpdated := now\<rparr>)]"
    by (auto simp: processUpdate_def)
  with found i fi wfc b show ?thesis
    by blast
qed

lemma processUpdate_not_found:
  assumes "changeKeys changes \<noteq> []"
    and "findZone zoneId files = None"
  shows "processUpdate enc now zoneId changes files = (UpdateNotFound, files)"
  using assms by (simp add: processUpdate_def)

lemma processUpdate_found:
  assumes "changeKeys changes \<noteq> []"
    and "findZone zoneId files = Some (i, path, content, gh, idx)"
    and "map_of (zones content) gh = Some bucket" "idx < length bucket"
  shows "processUpdate enc now zoneId changes files =
           (UpdateCompleted path,
            files[i := (path,
                content\<lparr>zones := placeUpdatedZone (zones content) gh idx bucket
                    (newGeohashOf enc changes (updatedZoneOf (bucket ! idx) changes) gh)
                    (updatedZoneOf (bucket ! idx) changes),
                  lastUpdated := now\<rparr>)])"
  using assms by (simp add: processUpdate_def applyChanges_Some)

lemma exampleRepo_wf: "wfFiles exampleRepo"
  by (simp add: wfFiles_def wfObject_def exampleRepo_def exampleAuckland_def exampleFile_def)

lemma exampleRepo_findZone:
  "findZone ''cdn-NZ-auckland-1'' exampleRepo =
     Some (1, ''zones/NZ/auckland/zones.json'', exampleAuckland, ''rckq2u'', 0)"
  by (simp add: exampleRepo_def exampleAuckland_def exampleBritomart_def exampleFile_def
        exampleZone_def)

lemma exampleAuckland_bucket: "map_of (zones exampleAuckland) ''rckq2u'' = Some [exampleBritomart]"
  by (simp add: exampleAuckland_def exampleFile_def)

lemma exampleChanges_keys: "changeKeys exampleChanges \<noteq> []"
  by (simp add: changeKeys_def exampleChanges_def noChanges_def keyIf_def)

lemma exampleRepo_update_status:
  "processUpdate enc now ''cdn-NZ-auckland-1'' exampleChanges exampleRepo =
     (UpdateCompleted ''zones/NZ/auckland/zones.json'',
      snd (processUpdate enc now ''cdn-NZ-auckland-1'' exampleChanges exampleRepo))"
  using processUpdate_found
    [OF exampleChanges_keys exampleRepo_findZone exampleAuckland_bucket, of enc now]
  by simp

text \<open>
  C8: for an update payload with at least one change whose \<open>zoneId\<close> is the id of no
  record of any bucket of any zone file, \<open>processUpdate\<close> ends with the not-found status
  and the zone files are as they were: no bucket, no \<open>zoneCount\<close> and no \<open>lastUpdated\<close>
  has changed.
\<close>

theorem C8_update_not_found:
  assumes "changeKeys changes \<noteq> []"
    and "list_all (\<lambda>f. list_all (\<lambda>z. zone_id z \<noteq> zoneId) (allZones (zones (snd f)))) files"
  shows "processUpdate geohashEncode now zoneId changes files = (UpdateNotFound, files)"
proof -
  from assms(2) have "findZone zoneId files = None"
    by (simp add: findZone_None list_all_iff)
  with assms(1) show ?thesis
    by (rule processUpdate_not_found)
qed

theorem C8_update_not_found_witness:
  "changeKeys (noChanges\<lparr>ch_name := Some ''Britomart East''\<rparr>) \<noteq> []
   \<and> list_all (\<lambda>f. list_all (\<lambda>z. zone_id z \<noteq> ''cdn-NZ-auckland-9'') (allZones (zones (snd f))))
        exampleRepo
   \<and> processUpdate (\<lambda>la lo p. ''rckq2u'') ''2026-02-01T00:00:00.000Z'' ''cdn-NZ-auckland-9''
        (noChanges\<lparr>ch_name := Some ''Britomart East''\<rparr>) exampleRepo
       = (UpdateNotFound, exampleRepo)"
proof -
  have h1: "changeKeys (noChanges\<lparr>ch_name := Some ''Britomart East''\<rparr>) \<noteq> []"
    by (simp add: changeKeys_def noChanges_def keyIf_def)
  have h2: "list_all (\<lambda>f. list_all (\<lambda>z. zone_id z \<noteq> ''cdn-NZ-auckland-9'') (allZones (zones (snd f))))
        exampleRepo"
    by (simp add: exampleRepo_def exampleAuckland_def exampleBritomart_def exampleWharf_def
          exampleFile_def exampleZone_def allZones_def)
  from h1 h2 C8_update_not_found [OF h1 h2] show ?thesis
    by blast
qed


lemma updatedZoneOf_system_keys:
  "version (updatedZoneOf old changes) = version old + 1"
  "zone_id (updatedZoneOf old changes) = zone_id old"
  "verified (updatedZoneOf old changes) = verified old"
  by (simp_all add: updatedZoneOf_def)

lemma updatedZoneOf_merges: "mergesChanges old changes (updatedZoneOf old changes)"
  by (simp add: mergesChanges_def updatedZoneOf_def spreadChanges_def spreadKey_def
        spreadOptionalKey_def)

lemma entry_allZones: "(k, b) \<in> set zs \<Longrightarrow> x \<in> set b \<Longrightarrow> x \<in> set (allZones zs)"
  by (force simp: allZones_def)

lemma map_of_allZones: "map_of zs k = Some b \<Longrightarrow> x \<in> set b \<Longrightarrow> x \<in> set (allZones zs)"
  by (blast intro: entry_allZones dest: map_of_SomeD)

text \<open>
  C4: an update that is accepted found a record of the id at an index of a bucket of a
  file; the record \<open>updatedZoneOf\<close> of it is stored in that file in its place (the
  records of the file are the old ones with the found record replaced by it); its
  version is the old version plus one, its id and its verified flag are those of the
  found record, whatever \<open>changes\<close> holds under \<open>ch_id\<close>, \<open>ch_verified\<close> and
  \<open>ch_version\<close>; each other key is the one of \<open>changes\<close> when \<open>changes\<close> has it and
  the one of the found record otherwise.
\<close>

theorem C4_update_version_id_verified:
  assumes "wfFiles files"
    and "processUpdate geohashEncode now zoneId changes files = (UpdateCompleted path, files')"
  shows "\<exists>i content gh idx bucket.
           findZone zoneId files = Some (i, path, content, gh, idx)
           \<and> map_of (zones content) gh = Some bucket \<and> idx < length bucket
           \<and> zone_id (bucket ! idx) = zoneId
           \<and> mset (allZones (zones (snd (files' ! i)))) + {#bucket ! idx#}
               = mset (allZones (zones content)) + {#updatedZoneOf (bucket ! idx) changes#}
           \<and> updatedZoneOf (bucket ! idx) changes \<in> set (allZones (zones (snd (files' ! i))))
           \<and> version (updatedZoneOf (bucket ! idx) changes) = version (bucket ! idx) + 1
           \<and> zone_id (updatedZoneOf (bucket ! idx) changes) = zone_id (bucket ! idx)
           \<and> verified (updatedZoneOf (bucket ! idx) changes) = verified (bucket ! idx)
           \<and> mergesChanges (bucket ! idx) changes (updatedZoneOf (bucket ! idx) changes)"
proof -
  from processUpdate_completed [OF assms] obtain i content gh idx bucket where
    found: "findZone zoneId files = Some (i, path, content, gh, idx)"
    and i: "i < length files"
    and wfc: "wfObject (zones content)"
    and b: "map_of (zones content) gh = Some bucket" "idx < length bucket"
    and zid: "zone_id (bucket ! idx) = zoneId"
    and files': "files' = files[i := (path,
                content\<lparr>zones := placeUpdatedZone (zones content) gh idx bucket
                    (newGeohashOf geohashEncode changes (updatedZoneOf (bucket ! idx) changes) gh)
                    (updatedZoneOf (bucket ! idx) changes),
                  lastUpdated := now\<rparr>)]"
    by blast
  let ?new = "updatedZoneOf (bucket ! idx) changes"
  let ?gh' = "newGeohashOf geohashEncode changes ?new gh"
  have z': "zones (snd (files' ! i)) = placeUpdatedZone (zones content) gh idx bucket ?gh' ?new"
    using i by (simp add: files')
  note props = placeUpdatedZone_props [OF wfc b, of ?gh' ?new]
  from props(3) have stored: "?new \<in> set (allZones (zones (snd (files' ! i))))"
    unfolding z' by (blast intro: map_of_allZones)
  from props(1) have frame: "mset (allZones (zones (snd (files' ! i)))) + {#bucket ! idx#}
               = mset (allZones (zones content)) + {#?new#}"
    unfolding z' .
  from found b zid frame stored updatedZoneOf_system_keys [of "bucket ! idx" changes]
    updatedZoneOf_merges [of "bucket ! idx" changes]
  show ?thesis
    by blast
qed

theorem C4_update_version_id_verified_witness:
  "wfFiles exampleRepo
   \<and> fst (processUpdate (\<lambda>la lo p. ''rckq9z'') ''2026-02-01T00:00:00.000Z''
            ''cdn-NZ-auckland-1'' exampleChanges exampleRepo)
       = UpdateCompleted ''zones/NZ/auckland/zones.json''
   \<and> (\<exists>z \<in> set (allZones (zones (snd (snd (processUpdate (\<lambda>la lo p. ''rckq9z'')
            ''2026-02-01T00:00:00.000Z'' ''cdn-NZ-auckland-1'' exampleChanges exampleRepo) ! 1)))).
         zone_id z = ''cdn-NZ-auckland-1'' \<and> verified z = False \<and> version z = 2
         \<and> name z = ''Britomart East'')"
proof -
  let ?r = "processUpdate (\<lambda>la lo p. ''rckq9z'') ''2026-02-01T00:00:00.000Z''
              ''cdn-NZ-auckland-1'' exampleChanges exampleRepo"
  note run = exampleRepo_update_status
    [of "\<lambda>la lo p. ''rckq9z''" "''2026-02-01T00:00:00.000Z''"]
  from C4_update_version_id_verified [OF exampleRepo_wf run]
  obtain i content gh idx bucket where
    found: "findZone ''cdn-NZ-auckland-1'' exampleRepo
              = Some (i, ''zones/NZ/auckland/zones.json'', content, gh, idx)"
    and b: "map_of (zones content) gh = Some bucket"
    and stored: "updatedZoneOf (bucket ! idx) exampleChanges
                   \<in> set (allZones (zones (snd (snd ?r ! i))))"
    and keys: "version (updatedZoneOf (bucket ! idx) exampleChanges) = version (bucket ! idx) + 1"
      "zone_id (updatedZoneOf (bucket ! idx) exampleChanges) = zone_id (bucket ! idx)"
      "verified (updatedZoneOf (bucket ! idx) exampleChanges) = verified (bucket ! idx)"
    and merged: "mergesChanges (bucket ! idx) exampleChanges
                   (updatedZoneOf (bucket ! idx) exampleChanges)"
    by blast
  from found exampleRepo_findZone have at: "i = 1" "gh = ''rckq2u''" "idx = 0"
    and content: "content = exampleAuckland"
    by auto
  from b have old: "bucket ! idx = exampleBritomart"
    by (auto simp: at content exampleAuckland_bucket)
  from merged have "name (updatedZoneOf (bucket ! idx) exampleChanges) = ''Britomart East''"
    by (simp add: mergesChanges_def exampleChanges_def noChanges_def)
  with keys have
    "zone_id (updatedZoneOf (bucket ! idx) exampleChanges) = ''cdn-NZ-auckland-1''
     \<and> verified (updatedZoneOf (bucket ! idx) exampleChanges) = False
     \<and> version (updatedZoneOf (bucket ! idx) exampleChanges) = 2
     \<and> name (updatedZoneOf (bucket ! idx) exampleChanges) = ''Britomart East''"
    by (simp add: old exampleBritomart_def exampleZone_def)
  with stored have "\<exists>z \<in> set (allZones (zones (snd (snd ?r ! 1)))).
         zone_id z = ''cdn-NZ-auckland-1'' \<and> verified z = False \<and> version z = 2
         \<and> name z = ''Britomart East''"
    unfolding at by blast
  moreover from run have "fst ?r = UpdateCompleted ''zones/NZ/auckland/zones.json''"
    by (metis fst_conv)
  ultimately show ?thesis
    using exampleRepo_wf by blast
qed

lemma occurrences_mset:
  "occurrences zoneId zs = size (filter_mset (\<lambda>z. zone_id z = zoneId) (mset (allZones zs)))"
  by (simp add: occurrences_def flip: mset_filter)

lemma no_occurrence_no_bucket:
  assumes "occurrences zoneId zs = 0"
  shows "bucketsHolding zoneId zs = []"
proof -
  from assms have none: "\<forall>z\<in>set (allZones zs). zone_id z \<noteq> zoneId"
    by (simp add: occurrences_def filter_empty_conv)
  have "\<not> list_ex (\<lambda>z. zone_id z = zoneId) b" if "(k, b) \<in> set zs" for k b
    using none entry_allZones [OF that] by (auto simp: list_ex_iff)
  then show ?thesis
    by (auto simp: bucketsHolding_def filter_empty_conv)
qed

lemma single_bucket_holding:
  assumes "wfObject zs" "map_of zs k = Some b" "\<exists>z\<in>set b. zone_id z = zoneId"
    and "occurrences zoneId zs = 1"
  shows "bucketsHolding zoneId zs = [k]"
  using assms
proof (induction zs)
  case Nil
  then show ?case by simp
next
  case (Cons a zs)
  obtain k' b' where a: "a = (k', b')"
    by (cases a)
  from Cons.prems(4) a have sum:
    "length (filter (\<lambda>z. zone_id z = zoneId) b') + occurrences zoneId zs = 1"
    by (simp add: occurrences_def allZones_simps)
  show ?case
  proof (cases "k' = k")
    case True
    with Cons.prems(2) a have "b' = b"
      by simp
    with Cons.prems(3) have pos: "0 < length (filter (\<lambda>z. zone_id z = zoneId) b')"
      by (simp add: filter_empty_conv)
    with sum have "occurrences zoneId zs = 0"
      by linarith
    then have "bucketsHolding zoneId zs = []"
      by (rule no_occurrence_no_bucket)
    moreover from pos have "list_ex (\<lambda>z. zone_id z = zoneId) b'"
      by (simp add: list_ex_iff filter_empty_conv)
    ultimately show ?thesis
      using True a by (simp add: bucketsHolding_def)
  next
    case False
    with Cons.prems(2) a have rest: "map_of zs k = Some b"
      by simp
    from Cons.prems(1) have wf: "wfObject zs"
      by (simp add: wfObject_def)
    from map_of_allZones [OF rest] Cons.prems(3) have "0 < occurrences zoneId zs"
      by (auto simp: occurrences_def filter_empty_conv)
    with sum have one: "occurrences zoneId zs = 1"
      and none: "length (filter (\<lambda>z. zone_id z = zoneId) b') = 0"
      by linarith+
    from none have "\<not> list_ex (\<lambda>z. zone_id z = zoneId) b'"
      by (simp add: list_ex_iff filter_empty_conv)
    with Cons.IH [OF wf rest Cons.prems(3) one] a show ?thesis
      by (simp add: bucketsHolding_def)
  qed
qed

text \<open>
  C2: an accepted update of a record whose id occurs once in its file, with a new center
  whose geohash of precision 6 differs from the key of the bucket of the record: in the
  file afterward the id occurs once, the bucket of the new geohash is the only bucket
  that holds a record of the id and it holds the updated record, and the old bucket is
  no key of the object when the removal left it empty (it is the old bucket without the
  record otherwise).
\<close>

theorem C2_relocation_single_bucket:
  assumes "wfFiles files"
    and "processUpdate geohashEncode now zoneId changes files = (UpdateCompleted path, files')"
    and "findZone zoneId files = Some (i, path, content, gh, idx)"
    and "map_of (zones content) gh = Some bucket"
    and "ch_center changes = Some c"
    and "geohashEncode (lat c) (lng c) GEOHASH_PRECISION \<noteq> gh"
    and "occurrences zoneId (zones content) = 1"
  shows "occurrences zoneId (zones (snd (files' ! i))) = 1
       \<and> bucketsHolding zoneId (zones (snd (files' ! i)))
           = [geohashEncode (lat c) (lng c) GEOHASH_PRECISION]
       \<and> (\<exists>b. map_of (zones (snd (files' ! i))) (geohashEncode (lat c) (lng c) GEOHASH_PRECISION)
                 = Some b
              \<and> updatedZoneOf (bucket ! idx) changes \<in> set b)
       \<and> map_of (zones (snd (files' ! i))) gh
           = (if spliceOut idx bucket = [] then None else Some (spliceOut idx bucket))
       \<and> wfObject (zones (snd (files' ! i)))"
proof -
  from processUpdate_completed [OF assms(1,2)] assms(3,4) have
    i: "i < length files"
    and wfc: "wfObject (zones content)"
    and idx: "idx < length bucket"
    and files': "files' = files[i := (path,
                content\<lparr>zones := placeUpdatedZone (zones content) gh idx bucket
                    (newGeohashOf geohashEncode changes (updatedZoneOf (bucket ! idx) changes) gh)
                    (updatedZoneOf (bucket ! idx) changes),
                  lastUpdated := now\<rparr>)]"
    by auto
  let ?old = "bucket ! idx"
  let ?new = "updatedZoneOf ?old changes"
  let ?gh' = "geohashEncode (lat c) (lng c) GEOHASH_PRECISION"
  have "center ?new = c"
    using assms(5) by (simp add: updatedZoneOf_def spreadChanges_def spreadKey_def)
  then have gh': "newGeohashOf geohashEncode changes ?new gh = ?gh'"
    using assms(5) by (simp add: newGeohashOf_def)
  have z': "zones (snd (files' ! i)) = placeUpdatedZone (zones content) gh idx bucket ?gh' ?new"
    using i by (simp add: files' gh')
  note props = placeUpdatedZone_props [OF wfc assms(4) idx, of ?gh' ?new]
  from findZone_Some [OF assms(3)] have "findInZones zoneId (zones content) = Some (gh, idx)"
    by simp
  from findInZones_Some [OF wfc this] assms(4) have old_id: "zone_id ?old = zoneId"
    by simp
  then have new_id: "zone_id ?new = zoneId"
    by (simp add: updatedZoneOf_system_keys)
  have "size (filter_mset (\<lambda>z. zone_id z = zoneId)
          (mset (allZones (zones (snd (files' ! i)))) + {#?old#}))
        = size (filter_mset (\<lambda>z. zone_id z = zoneId) (mset (allZones (zones content)) + {#?new#}))"
    unfolding z' by (simp only: props(1))
  then have occ: "occurrences zoneId (zones (snd (files' ! i))) = 1"
    using assms(7) old_id new_id by (simp add: occurrences_mset)
  have wf': "wfObject (zones (snd (files' ! i)))"
    unfolding z' by (rule props(2))
  from props(3) obtain b' where
    b': "map_of (zones (snd (files' ! i))) ?gh' = Some b'" "?new \<in> set b'"
    unfolding z' by blast
  from new_id b'(2) have "\<exists>z\<in>set b'. zone_id z = zoneId"
    by blast
  from single_bucket_holding [OF wf' b'(1) this occ]
  have single: "bucketsHolding zoneId (zones (snd (files' ! i))) = [?gh']" .
  have old: "map_of (zones (snd (files' ! i))) gh
           = (if spliceOut idx bucket = [] then None else Some (spliceOut idx bucket))"
    unfolding z' using assms(6) by (rule props(4))
  from occ single b' old wf' show ?thesis
    by blast
qed


theorem C2_relocation_single_bucket_witness:
  "wfFiles exampleRepo
   \<and> occurrences ''cdn-NZ-auckland-1'' (zones exampleAuckland) = 1
   \<and> occurrences ''cdn-NZ-auckland-1''
        (zones (snd (snd (processUpdate (\<lambda>la lo p. ''rckq9z'') ''2026-02-01T00:00:00.000Z''
            ''cdn-NZ-auckland-1'' exampleChanges exampleRepo) ! 1))) = 1
   \<and> bucketsHolding ''cdn-NZ-auckland-1''
        (zones (snd (snd (processUpdate (\<lambda>la lo p. ''rckq9z'') ''2026-02-01T00:00:00.000Z''
            ''cdn-NZ-auckland-1'' exampleChanges exampleRepo) ! 1))) = [''rckq9z'']
   \<and> map_of
        (zones (snd (snd (processUpdate (\<lambda>la lo p. ''rckq9z'') ''2026-02-01T00:00:00.000Z''
            ''cdn-NZ-auckland-1'' exampleChanges exampleRepo) ! 1))) ''rckq2u'' = None"
proof -
  let ?r = "processUpdate (\<lambda>la lo p. ''rckq9z'') ''2026-02-01T00:00:00.000Z''
              ''cdn-NZ-auckland-1'' exampleChanges exampleRepo"
  note run = exampleRepo_update_status
    [of "\<lambda>la lo p. ''rckq9z''" "''2026-02-01T00:00:00.000Z''"]
  have c: "ch_center exampleChanges = Some \<lparr>lat = - 3680 / 100, lng = 17480 / 100\<rparr>"
    by (simp add: exampleChanges_def noChanges_def)
  have differs: "(\<lambda>la lo p. ''rckq9z'') (lat \<lparr>lat = - 3680 / 100, lng = 17480 / 100\<rparr>)
                   (lng \<lparr>lat = - 3680 / 100, lng = 17480 / 100\<rparr>) GEOHASH_PRECISION \<noteq> ''rckq2u''"
    by simp
  have occ: "occurrences ''cdn-NZ-auckland-1'' (zones exampleAuckland) = 1"
    by (simp add: occurrences_def allZones_def exampleAuckland_def exampleBritomart_def
          exampleWharf_def exampleFile_def exampleZone_def)
  from C2_relocation_single_bucket
    [OF exampleRepo_wf run exampleRepo_findZone exampleAuckland_bucket c differs occ]
  have "occurrences ''cdn-NZ-auckland-1'' (zones (snd (snd ?r ! 1))) = 1"
    and "bucketsHolding ''cdn-NZ-auckland-1'' (zones (snd (snd ?r ! 1))) = [''rckq9z'']"
    and "map_of (zones (snd (snd ?r ! 1))) ''rckq2u'' = None"
    by (simp_all add: spliceOut_def)
  with exampleRepo_wf occ show ?thesis
    by blast
qed

lemma bucketLengthSum_allZones: "bucketLengthSum zs = length (allZones zs)"
  by (induction zs) (auto simp: bucketLengthSum_def allZones_simps)

lemma update_keeps_countInvariant:
  assumes "wfFiles files"
    and "list_all (\<lambda>f. countInvariant (snd f)) files"
    and "processUpdate enc now zoneId changes files = (UpdateCompleted path, files')"
  shows "list_all (\<lambda>f. countInvariant (snd f)) files'"
proof -
  from processUpdate_completed [OF assms(1,3)] obtain i content gh idx bucket where
    i: "i < length files" and fi: "files ! i = (path, content)"
    and wfc: "wfObject (zones content)"
    and b: "map_of (zones content) gh = Some bucket" "idx < length bucket"
    and files': "files' = files[i := (path,
                content\<lparr>zones := placeUpdatedZone (zones content) gh idx bucket
                    (newGeohashOf enc changes (updatedZoneOf (bucket ! idx) changes) gh)
                    (updatedZoneOf (bucket ! idx) changes),
                  lastUpdated := now\<rparr>)]"
    by blast
  let ?new = "updatedZoneOf (bucket ! idx) changes"
  let ?zs' = "placeUpdatedZone (zones content) gh idx bucket
                (newGeohashOf enc changes ?new gh) ?new"
  from placeUpdatedZone_props(1) [OF wfc b, of "newGeohashOf enc changes ?new gh" ?new]
  have "size (mset (allZones ?zs') + {#bucket ! idx#}) = size (mset (allZones (zones content)) + {#?new#})"
    by (rule arg_cong)
  then have same: "bucketLengthSum ?zs' = bucketLengthSum (zones content)"
    by (simp add: bucketLengthSum_allZones)
  from assms(2) i fi have "countInvariant content"
    by (auto simp: list_all_length)
  with same have "countInvariant (content\<lparr>zones := ?zs', lastUpdated := now\<rparr>)"
    by (simp add: countInvariant_def)
  with assms(2) show ?thesis
    unfolding files' by (auto simp: list_all_iff dest!: subsetD [OF set_update_subset_insert])
qed

section \<open>Properties of the submission\<close>

lemma example_safeParse:
  "ParkingZoneSubmission_safeParse (exampleSubmissionJson i v n) = Inr exampleParsed"
  by (simp add: ParkingZoneSubmission_safeParse_def exampleSubmissionJson_def
        parseSubmissionKeys_def exampleParsed_def zString_def zNumber_def zOptional_def
        zDefault_def zEnum_def parseLatLng_def EnforcementType_values_def
        EnforcementMethod_values_def)

lemma example_safeParse_issues:
  "ParkingZoneSubmission_safeParse
     (JObject [(''name'', JString ''''), (''center'', JObject [(''lng'', JNumber 200)]),
               (''radius'', JNumber 40), (''enforcementType'', JString ''council''),
               (''enforcementMethod'', JString ''pay_and_display''),
               (''country'', JString ''NZL''), (''region'', JString ''auckland'')])
   = Inl [[Key ''name''], [Key ''center'', Key ''lat''], [Key ''center'', Key ''lng''],
          [Key ''country'']]"
  by (simp add: ParkingZoneSubmission_safeParse_def
        parseSubmissionKeys_def zString_def zNumber_def zOptional_def
        zDefault_def zEnum_def parseLatLng_def EnforcementType_values_def
        EnforcementMethod_values_def)

lemma fullZone_fields:
  "zone_id (ParkingZoneSubmission.extend zone (ParkingZone.fields i v n)) = i"
  "verified (ParkingZoneSubmission.extend zone (ParkingZone.fields i v n)) = v"
  "version (ParkingZoneSubmission.extend zone (ParkingZone.fields i v n)) = n"
  "ParkingZoneSubmission.truncate (ParkingZoneSubmission.extend zone (ParkingZone.fields i v n)) = zone"
  "name (ParkingZoneSubmission.extend zone (ParkingZone.fields i v n)) = name zone"
  "center (ParkingZoneSubmission.extend zone (ParkingZone.fields i v n)) = center zone"
  by (simp_all add: ParkingZoneSubmission.defs ParkingZone.defs)

lemma far_distance:
  assumes "lat b - lat a = 60" "lng b = lng a"
  shows "distanceMeters a b = 2 * 6371000 * (pi / 6)"
proof -
  have a: "60 * pi / 180 / 2 = pi / 6"
    by simp
  have "arcsin (sin (pi / 6)) = pi / 6"
    by (rule arcsin_sin) (use pi_gt_zero in simp_all)
  then have "arcsin (1 / 2) = pi / 6"
    by (simp add: sin_30)
  then show ?thesis
    unfolding distanceMeters_def Let_def assms
    by (simp add: a sin_30 real_sqrt_divide)
qed

lemma parseSubmissionKeys_cong:
  assumes "\<forall>k. k \<notin> systemKeys \<longrightarrow> get' k = get k"
  shows "parseSubmissionKeys get' = parseSubmissionKeys get"
proof -
  have e: "get' k = get k"
    if "k \<in> set [''name'', ''description'', ''center'', ''radius'', ''polygon'',
          ''enforcementType'', ''enforcementMethod'', ''enforcementCompany'',
          ''legislationCode'', ''freeMinutes'', ''maxStayMinutes'', ''chargePerHour'',
          ''currency'', ''operatingHours'', ''noReturnMinutes'', ''reparkingTips'',
          ''country'', ''region'', ''city'']" for k
  proof -
    from that have "k \<notin> systemKeys"
      by (auto simp: systemKeys_def)
    with assms show ?thesis
      by blast
  qed
  show ?thesis
    unfolding parseSubmissionKeys_def by (simp add: e)
qed

lemma safeParse_ignores_system_keys:
  assumes "\<forall>k. k \<notin> systemKeys \<longrightarrow> map_of kvs' k = map_of kvs k"
  shows "ParkingZoneSubmission_safeParse (JObject kvs') = ParkingZoneSubmission_safeParse (JObject kvs)"
  using parseSubmissionKeys_cong [OF assms] by (simp add: ParkingZoneSubmission_safeParse_def)

lemma processSubmission_ignores_system_keys:
  assumes "\<forall>k. k \<notin> systemKeys \<longrightarrow> map_of kvs' k = map_of kvs k"
  shows "processSubmission enc uuid t0 t1 (JObject kvs') existingFile
           = processSubmission enc uuid t0 t1 (JObject kvs) existingFile"
  unfolding processSubmission_def
  by (simp only: safeParse_ignores_system_keys [OF assms])

lemma foldl_bucket_lengths:
  "foldl (\<lambda>n bucket. n + length bucket) k (map snd zs) = k + bucketLengthSum zs"
  by (induction zs arbitrary: k) (auto simp: bucketLengthSum_def)

lemma processSubmission_completed:
  assumes "processSubmission enc uuid t0 t1 zoneData existingFile = SubmissionCompleted path content'"
  shows "\<exists>zone. ParkingZoneSubmission_safeParse zoneData = Inr zone
           \<and> findDuplicate zone (zonesOfRead existingFile) = None
           \<and> zones content' =
               pushToBucket (zonesOfRead existingFile)
                 (enc (lat (center zone)) (lng (center zone)) GEOHASH_PRECISION)
                 (ParkingZoneSubmission.extend zone
                    (ParkingZone.fields (generateZoneId (country zone) (region zone) uuid) False 1))
           \<and> zoneCount content' = bucketLengthSum (zones content')
           \<and> lastUpdated content' = t1"
proof (cases "ParkingZoneSubmission_safeParse zoneData")
  case (Inl issues)
  with assms show ?thesis
    by (simp add: processSubmission_def)
next
  case (Inr zone)
  show ?thesis
  proof (cases existingFile)
    case None
    with assms Inr show ?thesis
      by (auto simp: processSubmission_def Let_def zonesOfRead_def foldl_bucket_lengths
            split: option.splits)
  next
    case (Some content)
    with assms Inr show ?thesis
      by (auto simp: processSubmission_def Let_def zonesOfRead_def foldl_bucket_lengths
            split: option.splits)
  qed
qed

lemma endsWith_append: "endsWith (pre @ t) t"
  by (simp add: endsWith_def)

lemma generateZoneId_endsWith: "endsWith (generateZoneId c r uuid) uuid"
proof -
  have "generateZoneId c r uuid = (''cdn-'' @ c @ ''-'' @ r @ ''-'') @ uuid"
    by (simp add: generateZoneId_def)
  then show ?thesis
    by (simp only: endsWith_append)
qed

lemma example_no_duplicate: "findDuplicate exampleParsed (zones exampleFar) = None"
proof -
  have "\<not> 2 * 6371000 * (pi / 6) \<le> (50::real)" "\<not> 2 * 6371000 * (pi / 6) \<le> (20::real)"
    using pi_ge_two by simp_all
  moreover have "distanceMeters (center exampleParsed)
                   (center (exampleZone ''cdn-NZ-auckland-7'' ''Far North'' (2316 / 100) (17477 / 100) 25))
                 = 2 * 6371000 * (pi / 6)"
    by (rule far_distance) (simp_all add: exampleParsed_def exampleZone_def)
  ultimately have "\<not> matchesZone exampleParsed
               (exampleZone ''cdn-NZ-auckland-7'' ''Far North'' (2316 / 100) (17477 / 100) 25)"
    by (simp add: matchesZone_def)
  then show ?thesis
    by (simp add: exampleFar_def exampleFile_def)
qed

lemma example_create_run:
  "processSubmission (\<lambda>la lo p. ''rckq2u'') exampleUuid ''2026-03-01T00:00:00.000Z''
     ''2026-03-01T00:00:01.000Z'' (exampleSubmissionJson i v n) (Some exampleFar)
   = SubmissionCompleted ''zones/NZ/auckland/zones.json'' exampleCreated"
proof -
  have "pushToBucket (zones exampleFar) ''rckq2u''
          (ParkingZoneSubmission.extend exampleParsed
             (ParkingZone.fields ''cdn-NZ-auckland-3b241101-e2bb-4255-8caf-4136c566a962''
                False 1))
        = zones exampleCreated"
    by (simp add: pushToBucket_def objSet_def objHas_def exampleFar_def exampleFile_def
          exampleCreated_def)
  moreover have "generateZoneId (country exampleParsed) (region exampleParsed) exampleUuid
        = ''cdn-NZ-auckland-3b241101-e2bb-4255-8caf-4136c566a962''"
    by (simp add: generateZoneId_def exampleParsed_def exampleUuid_def)
  moreover have "''zones/'' @ country exampleParsed @ ''/'' @ region exampleParsed @ ''/zones.json''
        = ''zones/NZ/auckland/zones.json''"
    by (simp add: exampleParsed_def)
  moreover have "exampleFar\<lparr>zones := zones exampleCreated,
                   zoneCount := foldl (\<lambda>n bucket. n + length bucket) 0 (map snd (zones exampleCreated)),
                   lastUpdated := ''2026-03-01T00:00:01.000Z''\<rparr> = exampleCreated"
    by (simp add: exampleFar_def exampleFile_def exampleCreated_def)
  ultimately show ?thesis
    by (simp add: processSubmission_def example_safeParse example_no_duplicate Let_def)
qed

text \<open>
  C5: an accepted submission parsed to a submission \<open>zone\<close>, and the record added to the
  bucket of its geohash has the keys of \<open>zone\<close>, the id that \<open>generateZoneId\<close> builds from
  its country, its region and the drawn UUID, \<open>verified = False\<close> and \<open>version = 1\<close>. The
  id is the id of no record of the file when no id of the file ends with the UUID. The
  result is the same for every payload that differs from the submitted one only under
  the keys \<^verbatim>\<open>id\<close>, \<^verbatim>\<open>verified\<close> and \<^verbatim>\<open>version\<close>: the schema does not read them.
\<close>

theorem C5_submission_system_fields:
  assumes "processSubmission geohashEncode uuid t0 t1 zoneData existingFile
             = SubmissionCompleted path content'"
  shows "\<exists>zone fullZone.
           ParkingZoneSubmission_safeParse zoneData = Inr zone
           \<and> (\<exists>bucket. map_of (zones content')
                          (geohashEncode (lat (center zone)) (lng (center zone)) GEOHASH_PRECISION)
                        = Some (bucket @ [fullZone]))
           \<and> ParkingZoneSubmission.truncate fullZone = zone
           \<and> zone_id fullZone = generateZoneId (country zone) (region zone) uuid
           \<and> verified fullZone = False
           \<and> version fullZone = 1
           \<and> (list_all (\<lambda>z. \<not> endsWith (zone_id z) uuid) (allZones (zonesOfRead existingFile))
                \<longrightarrow> list_all (\<lambda>z. zone_id z \<noteq> zone_id fullZone)
                      (allZones (zonesOfRead existingFile)))
           \<and> (\<forall>kvs kvs'. zoneData = JObject kvs
                  \<and> (\<forall>k. k \<notin> systemKeys \<longrightarrow> map_of kvs' k = map_of kvs k)
                \<longrightarrow> processSubmission geohashEncode uuid t0 t1 (JObject kvs') existingFile
                      = SubmissionCompleted path content')"
proof -
  from processSubmission_completed [OF assms] obtain zone where
    parsed: "ParkingZoneSubmission_safeParse zoneData = Inr zone"
    and z': "zones content' =
               pushToBucket (zonesOfRead existingFile)
                 (geohashEncode (lat (center zone)) (lng (center zone)) GEOHASH_PRECISION)
                 (ParkingZoneSubmission.extend zone
                    (ParkingZone.fields (generateZoneId (country zone) (region zone) uuid) False 1))"
    by blast
  let ?full = "ParkingZoneSubmission.extend zone
                 (ParkingZone.fields (generateZoneId (country zone) (region zone) uuid) False 1)"
  have stored: "\<exists>bucket. map_of (zones content')
                          (geohashEncode (lat (center zone)) (lng (center zone)) GEOHASH_PRECISION)
                        = Some (bucket @ [?full])"
    unfolding z' by (simp add: map_of_pushToBucket)
  have fresh: "list_all (\<lambda>z. zone_id z \<noteq> zone_id ?full) (allZones (zonesOfRead existingFile))"
    if "list_all (\<lambda>z. \<not> endsWith (zone_id z) uuid) (allZones (zonesOfRead existingFile))"
    using that generateZoneId_endsWith [of "country zone" "region zone" uuid]
    by (auto simp: list_all_iff fullZone_fields)
  have same: "processSubmission geohashEncode uuid t0 t1 (JObject kvs') existingFile
                = SubmissionCompleted path content'"
    if "zoneData = JObject kvs" "\<forall>k. k \<notin> systemKeys \<longrightarrow> map_of kvs' k = map_of kvs k"
    for kvs kvs'
    using processSubmission_ignores_system_keys [OF that(2)] assms that(1) by simp
  from parsed stored fresh same fullZone_fields(1-4) [of zone] show ?thesis
    by blast
qed

theorem C5_submission_system_fields_witness:
  "processSubmission (\<lambda>la lo p. ''rckq2u'') exampleUuid ''2026-03-01T00:00:00.000Z''
     ''2026-03-01T00:00:01.000Z''
     (exampleSubmissionJson (JString ''cdn-XX-other-0'') (JBool True) (JNumber 7))
     (Some exampleFar)
   = SubmissionCompleted ''zones/NZ/auckland/zones.json'' exampleCreated
   \<and> (\<exists>z \<in> set (allZones (zones exampleCreated)).
         zone_id z = ''cdn-NZ-auckland-3b241101-e2bb-4255-8caf-4136c566a962''
         \<and> verified z = False \<and> version z = 1
         \<and> ParkingZoneSubmission.truncate z = exampleParsed
         \<and> list_all (\<lambda>z'. zone_id z' \<noteq> zone_id z) (allZones (zones exampleFar)))"
proof -
  let ?raw = "exampleSubmissionJson (JString ''cdn-XX-other-0'') (JBool True) (JNumber 7)"
  note run = example_create_run [of "JString ''cdn-XX-other-0''" "JBool True" "JNumber 7"]
  from C5_submission_system_fields [OF run] obtain zone fullZone bucket where
    parsed: "ParkingZoneSubmission_safeParse ?raw = Inr zone"
    and stored: "map_of (zones exampleCreated)
                   ((\<lambda>la lo p. ''rckq2u'') (lat (center zone)) (lng (center zone)) GEOHASH_PRECISION)
                 = Some (bucket @ [fullZone])"
    and kept: "ParkingZoneSubmission.truncate fullZone = zone"
    and sys: "zone_id fullZone = generateZoneId (country zone) (region zone) exampleUuid"
      "verified fullZone = False" "version fullZone = 1"
    and fresh: "list_all (\<lambda>z. \<not> endsWith (zone_id z) exampleUuid)
                  (allZones (zonesOfRead (Some exampleFar)))
                \<longrightarrow> list_all (\<lambda>z. zone_id z \<noteq> zone_id fullZone)
                      (allZones (zonesOfRead (Some exampleFar)))"
    by blast
  from parsed have zone: "zone = exampleParsed"
    by (simp add: example_safeParse)
  from stored have "fullZone \<in> set (allZones (zones exampleCreated))"
    by (auto intro: map_of_allZones)
  moreover from sys(1) have "zone_id fullZone = ''cdn-NZ-auckland-3b241101-e2bb-4255-8caf-4136c566a962''"
    by (simp add: zone generateZoneId_def exampleParsed_def exampleUuid_def)
  moreover have "list_all (\<lambda>z. \<not> endsWith (zone_id z) exampleUuid)
                  (allZones (zonesOfRead (Some exampleFar)))"
    by (simp add: zonesOfRead_def exampleFar_def exampleFile_def exampleZone_def allZones_def
          endsWith_def exampleUuid_def)
  with fresh have "list_all (\<lambda>z. zone_id z \<noteq> zone_id fullZone) (allZones (zones exampleFar))"
    by (simp add: zonesOfRead_def)
  ultimately have "\<exists>z \<in> set (allZones (zones exampleCreated)).
         zone_id z = ''cdn-NZ-auckland-3b241101-e2bb-4255-8caf-4136c566a962''
         \<and> verified z = False \<and> version z = 1
         \<and> ParkingZoneSubmission.truncate z = exampleParsed
         \<and> list_all (\<lambda>z'. zone_id z' \<noteq> zone_id z) (allZones (zones exampleFar))"
    using sys(2,3) kept zone by blast
  with run show ?thesis
    by (rule conjI)
qed

lemma update_keeps_countInvariant_at:
  assumes "wfFiles files"
    and "processUpdate enc now zoneId changes files = (UpdateCompleted path, files')"
    and "findZone zoneId files = Some (i, path, content, gh, idx)"
    and "countInvariant content"
  shows "countInvariant (snd (files' ! i))"
proof -
  from processUpdate_completed [OF assms(1,2)] assms(3) obtain bucket where
    i: "i < length files"
    and wfc: "wfObject (zones content)"
    and b: "map_of (zones content) gh = Some bucket" "idx < length bucket"
    and files': "files' = files[i := (path,
                content\<lparr>zones := placeUpdatedZone (zones content) gh idx bucket
                    (newGeohashOf enc changes (updatedZoneOf (bucket ! idx) changes) gh)
                    (updatedZoneOf (bucket ! idx) changes),
                  lastUpdated := now\<rparr>)]"
    by auto
  let ?new = "updatedZoneOf (bucket ! idx) changes"
  let ?zs' = "placeUpdatedZone (zones content) gh idx bucket
                (newGeohashOf enc changes ?new gh) ?new"
  from placeUpdatedZone_props(1) [OF wfc b, of "newGeohashOf enc changes ?new gh" ?new]
  have "size (mset (allZones ?zs') + {#bucket ! idx#}) = size (mset (allZones (zones content)) + {#?new#})"
    by (rule arg_cong)
  then have "bucketLengthSum ?zs' = bucketLengthSum (zones content)"
    by (simp add: bucketLengthSum_allZones)
  with assms(4) have "countInvariant (content\<lparr>zones := ?zs', lastUpdated := now\<rparr>)"
    by (simp add: countInvariant_def)
  with i show ?thesis
    by (simp add: files')
qed

text \<open>
  C1: the file of an accepted submission satisfies \<open>countInvariant\<close>, its \<open>zoneCount\<close>
  is the sum of the lengths of its buckets; and when the file in which an accepted
  update found its record satisfies \<open>countInvariant\<close>, the file satisfies it after the
  update, whether the record was replaced in place or moved to another bucket.
\<close>

theorem C1_zoneCount_invariant:
  "(processSubmission geohashEncode uuid ta tb zoneData existingFile
      = SubmissionCompleted path content'
    \<longrightarrow> countInvariant content')
   \<and> (wfFiles files
      \<and> processUpdate geohashEncode now zoneId changes files = (UpdateCompleted upath, files')
      \<and> findZone zoneId files = Some (i, upath, content, gh, idx)
      \<and> countInvariant content
    \<longrightarrow> countInvariant (snd (files' ! i)))"
proof (intro conjI impI)
  assume "processSubmission geohashEncode uuid ta tb zoneData existingFile
            = SubmissionCompleted path content'"
  from processSubmission_completed [OF this] show "countInvariant content'"
    by (auto simp: countInvariant_def)
next
  assume "wfFiles files
      \<and> processUpdate geohashEncode now zoneId changes files = (UpdateCompleted upath, files')
      \<and> findZone zoneId files = Some (i, upath, content, gh, idx)
      \<and> countInvariant content"
  then show "countInvariant (snd (files' ! i))"
    by (blast intro: update_keeps_countInvariant_at)
qed


theorem C1_zoneCount_invariant_witness:
  "countInvariant exampleFar
   \<and> countInvariant exampleCreated
   \<and> wfFiles exampleRepo
   \<and> countInvariant exampleAuckland
   \<and> countInvariant
       (snd (snd (processUpdate (\<lambda>la lo p. ''rckq9z'') ''2026-02-01T00:00:00.000Z''
                    ''cdn-NZ-auckland-1'' exampleChanges exampleRepo) ! 1))"
proof -
  note create = example_create_run [of JNull JNull JNull]
  note update = exampleRepo_update_status
    [of "\<lambda>la lo p. ''rckq9z''" "''2026-02-01T00:00:00.000Z''"]
  have far: "countInvariant exampleFar"
    by (simp add: countInvariant_def bucketLengthSum_def exampleFar_def exampleFile_def)
  have auckland: "countInvariant exampleAuckland"
    by (simp add: countInvariant_def bucketLengthSum_def exampleAuckland_def exampleFile_def)
  note c1 = C1_zoneCount_invariant
    [where geohashEncode = "\<lambda>la lo p. ''rckq9z''" and files = exampleRepo
       and zoneId = "''cdn-NZ-auckland-1''" and changes = exampleChanges
       and now = "''2026-02-01T00:00:00.000Z''" and i = 1 and content = exampleAuckland
       and gh = "''rckq2u''" and idx = 0 and upath = "''zones/NZ/auckland/zones.json''"
       and files' = "snd (processUpdate (\<lambda>la lo p. ''rckq9z'') ''2026-02-01T00:00:00.000Z''
                    ''cdn-NZ-auckland-1'' exampleChanges exampleRepo)"]
  from c1 exampleRepo_wf update exampleRepo_findZone auckland
  have updated: "countInvariant
       (snd (snd (processUpdate (\<lambda>la lo p. ''rckq9z'') ''2026-02-01T00:00:00.000Z''
                    ''cdn-NZ-auckland-1'' exampleChanges exampleRepo) ! 1))"
    by blast
  from C1_zoneCount_invariant
    [where geohashEncode = "\<lambda>la lo p. ''rckq2u''" and uuid = exampleUuid
       and zoneData = "exampleSubmissionJson JNull JNull JNull"
       and existingFile = "Some exampleFar" and ta = "''2026-03-01T00:00:00.000Z''"
       and tb = "''2026-03-01T00:00:01.000Z''" and path = "''zones/NZ/auckland/zones.json''"
       and content' = exampleCreated]
    create
  have created: "countInvariant exampleCreated"
    by blast
  from far created exampleRepo_wf auckland updated show ?thesis
    by blast
qed

section \<open>The distance of valid coordinates\<close>

text \<open>
  Between valid coordinates the term under the square root lies between 0 and 1, the
  domain on which the arc sine and the square root of HOL are those of JavaScript, and
  the distance is not negative.
\<close>

lemma distanceMeters_haversine:
  "distanceMeters a b = 2 * 6371000 * arcsin (sqrt (haversine a b))"
  by (simp add: distanceMeters_def haversine_def Let_def)

lemma degrees_quarter_turn:
  fixes x :: real
  assumes "- 90 \<le> x" "x \<le> 90"
  shows "- (pi / 2) \<le> x * pi / 180" "x * pi / 180 \<le> pi / 2"
proof -
  have "(- 90) * pi \<le> x * pi" "x * pi \<le> 90 * pi"
    using assms pi_ge_zero by (simp_all only: mult_right_mono)
  then show "- (pi / 2) \<le> x * pi / 180" "x * pi / 180 \<le> pi / 2"
    by simp_all
qed

lemma haversine_range:
  assumes "validCoordinate a" "validCoordinate b"
  shows "0 \<le> haversine a b \<and> haversine a b \<le> 1"
proof -
  define p where "p = lat a * pi / 180"
  define q where "q = lat b * pi / 180"
  define s where "s = sin ((lng b - lng a) * pi / 180 / 2)"
  have pr: "- (pi / 2) \<le> p" "p \<le> pi / 2" "- (pi / 2) \<le> q" "q \<le> pi / 2"
    using assms degrees_quarter_turn [of "lat a"] degrees_quarter_turn [of "lat b"]
    by (simp_all add: validCoordinate_def p_def q_def)
  have cp: "0 \<le> cos p" and cq: "0 \<le> cos q"
    using pr by (simp_all add: cos_ge_zero)
  have half: "(lat b - lat a) * pi / 180 / 2 = (q - p) / 2"
    by (simp add: p_def q_def field_simps)
  have h: "haversine a b = sin ((q - p) / 2) * sin ((q - p) / 2) + cos p * cos q * s * s"
    unfolding haversine_def half by (simp only: p_def q_def s_def)
  have s2: "0 \<le> s * s" "s * s \<le> 1"
    using abs_sin_le_one [of "(lng b - lng a) * pi / 180 / 2"]
    by (simp_all add: s_def abs_square_le_1 power2_eq_square [symmetric])
  have sq: "sin ((q - p) / 2) * sin ((q - p) / 2) = (1 - cos (q - p)) / 2"
  proof -
    have "2 * ((q - p) / 2) = q - p"
      by simp
    with cos_double_sin [of "(q - p) / 2"]
    have "cos (q - p) = 1 - 2 * (sin ((q - p) / 2) * sin ((q - p) / 2))"
      by (simp only: power2_eq_square)
    then show ?thesis
      by simp
  qed
  have lower: "0 \<le> haversine a b"
    unfolding h using cp cq s2(1)
    by (simp add: mult.assoc)
  have "cos p * cos q * s * s \<le> cos p * cos q"
    using mult_left_mono [OF s2(2), of "cos p * cos q"] cp cq by (simp add: mult.assoc)
  then have "haversine a b \<le> (1 - cos (q - p)) / 2 + cos p * cos q"
    unfolding h sq by simp
  also have "\<dots> = (1 + cos (p + q)) / 2"
    by (simp add: cos_diff cos_add field_simps)
  also have "\<dots> \<le> 1"
    using cos_le_one [of "p + q"] by simp
  finally show ?thesis
    using lower by simp
qed

lemma distanceMeters_nonneg:
  assumes "validCoordinate a" "validCoordinate b"
  shows "0 \<le> distanceMeters a b"
proof -
  from haversine_range [OF assms] have "0 \<le> sqrt (haversine a b)" "sqrt (haversine a b) \<le> 1"
    by simp_all
  then have "arcsin 0 \<le> arcsin (sqrt (haversine a b))"
    by (intro arcsin_le_arcsin) simp_all
  then have "0 \<le> arcsin (sqrt (haversine a b))"
    by simp
  then show ?thesis
    by (simp add: distanceMeters_haversine)
qed

end
